theory Spec2Isabelle
  imports Complex_Main "HOL-Library.Sublist"
begin

section \<open>Data model\<close>

text \<open>
  A finite JavaScript number is a real number, and the numbers here are reals.
  \<open>Math.round\<close> is \<^const>\<open>round\<close> (\<open>round x = \<lfloor>x + 1/2\<rfloor>\<close>, halves go up, as in
  JavaScript). Where the source turns the result of its arithmetic into an integer or
  branches on it (the particle count, the bitrate of the recorder, the parsed colour, the
  letterbox bars), each operation is rounded to the nearest double, as written out in the
  section on numbers, and a division by zero has its own results. Elsewhere (coordinates,
  colour factors, durations, the progress) the arithmetic is read exactly, and a division
  by zero, which gives an infinity or \<open>NaN\<close> in the source, gives 0; the statements that
  go through such a quotient take the divisor to be positive or evaluate it at numbers.
  Strings are byte lists; a character outside ASCII is written as its UTF-8 bytes.
\<close>

text \<open>\<open>type ShotPlan\<close> of the studio page.\<close>

record ShotPlan =
  title :: string
  description :: string
  duration :: real

text \<open>
  \<open>CinematicSettings\<close> is declared in \<open>lib/cinematicPresets\<close>; its fields are read off
  their uses in the page and the canvas.
\<close>

record CinematicSettings =
  duration :: real
  frameRate :: real
  resolutionPresetId :: string
  aspectRatio :: real
  moodId :: string
  cameraMotionId :: string
  bloom :: real
  grain :: real
  parallax :: real
  chromaShift :: real

text \<open>
  The mood and camera-motion catalogue entries, also of \<open>lib/cinematicPresets\<close>; the
  fields are the ones the page and the canvas read.
\<close>

record Mood =
  id :: string
  name :: string
  description :: string
  palette :: "string \<times> string \<times> string"
  light :: string
  haze :: string

record CameraMotion =
  id :: string
  name :: string
  description :: string

section \<open>Numbers\<close>

text \<open>
  The doubles are the reals \<open>m * 2^e\<close> with \<open>\<bar>m\<bar> < 2^53\<close> and \<open>- 1074 \<le> e\<close>. An arithmetic
  operation of the source gives the double nearest to the exact result, and of two nearest
  ones the one with the even significand: \<open>binary64\<close> rounds a real in that way. The
  spacing of the doubles around \<open>x\<close> is \<open>2^(e - 52)\<close> for \<open>2^e \<le> \<bar>x\<bar> < 2^(e + 1)\<close>, and
  \<open>2^(- 1074)\<close> below \<open>2^(- 1022)\<close>. The exponent has no upper bound here: a result beyond
  the largest double, which is an infinity in the source, is not modelled, and the
  statements that depend on it bound the magnitudes of their inputs. Zero has no sign
  here.
\<close>

definition roundTiesToEven :: "real \<Rightarrow> int" where
  "roundTiesToEven x =
     (let f = \<lfloor>x\<rfloor> in
      if x - of_int f < 1 / 2 then f
      else if 1 / 2 < x - of_int f then f + 1
      else if even f then f else f + 1)"

definition binary64 :: "real \<Rightarrow> real" where
  "binary64 x =
     (if x = 0 then 0
      else (let e = max (- 1022) \<lfloor>log 2 \<bar>x\<bar>\<rfloor>;
                ulp = 2 powi (e - 52)
            in of_int (roundTiesToEven (x / ulp)) * ulp))"

text \<open>The operators \<open>+\<close>, \<open>-\<close> and \<open>*\<close> of the source on two doubles.\<close>

definition add64 :: "real \<Rightarrow> real \<Rightarrow> real" where
  "add64 x y = binary64 (x + y)"

definition sub64 :: "real \<Rightarrow> real \<Rightarrow> real" where
  "sub64 x y = binary64 (x - y)"

definition mul64 :: "real \<Rightarrow> real \<Rightarrow> real" where
  "mul64 x y = binary64 (x * y)"

text \<open>
  The operator \<open>/\<close>: a quotient by zero is an infinity with the sign of the dividend, and
  \<open>0 / 0\<close> is \<open>NaN\<close>.
\<close>

datatype quotient = Quotient real | PositiveInfinity | NegativeInfinity | NotANumber

definition div64 :: "real \<Rightarrow> real \<Rightarrow> quotient" where
  "div64 x y =
     (if y \<noteq> 0 then Quotient (binary64 (x / y))
      else if 0 < x then PositiveInfinity
      else if x < 0 then NegativeInfinity
      else NotANumber)"

text \<open>
  The comparison \<open>q > t\<close> of a quotient with a finite number; a comparison with \<open>NaN\<close> is
  false.
\<close>

fun greaterThan64 :: "quotient \<Rightarrow> real \<Rightarrow> bool" where
  "greaterThan64 (Quotient q) t = (q > t)"
| "greaterThan64 PositiveInfinity t = True"
| "greaterThan64 NegativeInfinity t = False"
| "greaterThan64 NotANumber t = False"

section \<open>Shot planner\<close>

text \<open>
  \<open>buildShotPlan\<close>. The catalogue lookups \<open>getMood\<close> and \<open>getCameraMotion\<close> and the
  platform's \<open>String.prototype.toLowerCase\<close> are parameters.
\<close>

definition buildShotPlan ::
  "(string \<Rightarrow> string) \<Rightarrow> (string \<Rightarrow> Mood) \<Rightarrow> (string \<Rightarrow> CameraMotion) \<Rightarrow>
   CinematicSettings \<Rightarrow> ShotPlan list" where
  "buildShotPlan toLowerCase getMood getCameraMotion settings =
     (let segments = 3;
          segmentDuration = CinematicSettings.duration settings / segments;
          mood = getMood (moodId settings);
          motion = getCameraMotion (cameraMotionId settings)
      in [\<lparr>title = ''Plan d'' @ [CHR 0xE2, CHR 0x80, CHR 0x99] @ ''ouverture ''
                   @ [CHR 0xC2, CHR 0xB7] @ '' establishing'',
           description = ''Halo '' @ toLowerCase (Mood.name mood) @ '' avec mouvement ''
                   @ toLowerCase (CameraMotion.name motion) @ '' qui r''
                   @ [CHR 0xC3, CHR 0xA9] @ ''v'' @ [CHR 0xC3, CHR 0xA8]
                   @ ''le progressivement les volumes.'',
           duration = segmentDuration * 1.1\<rparr>,
          \<lparr>title = ''Plan m'' @ [CHR 0xC3, CHR 0xA9] @ ''dian '' @ [CHR 0xC2, CHR 0xB7]
                   @ '' mont'' @ [CHR 0xC3, CHR 0xA9] @ ''e en tension'',
           description = ''Lignes de perspective amplifi'' @ [CHR 0xC3, CHR 0xA9]
                   @ ''es, oscillation des couches parallaxe et intensification du flare principal.'',
           duration = segmentDuration * 0.9\<rparr>,
          \<lparr>title = ''Plan final '' @ [CHR 0xC2, CHR 0xB7] @ '' apog'' @ [CHR 0xC3, CHR 0xA9] @ ''e'',
           description = ''Pulse chromatique soutenu, grain accentu'' @ [CHR 0xC3, CHR 0xA9]
                   @ '' et ralentissement progressif pour pr'' @ [CHR 0xC3, CHR 0xA9]
                   @ ''parer un cut vers le noir.'',
           duration = segmentDuration * 1.2\<rparr>])"

section \<open>Canvas drawing commands\<close>

text \<open>
  The 2D context is written to by side effect. The painters are modelled as the list of
  context calls they make, in order. A CSS colour built by a template literal is a
  constructor of \<open>css\<close> holding the interpolated numbers; a gradient is the value it has
  once its colour stops are added. \<open>FillRectNonFinite\<close> is a call of \<open>fillRect\<close> in which an
  argument is not a finite number.
\<close>

datatype css =
    Css string
  | Rgb int int int
  | Rgba int int int real

datatype gradient =
    LinearGradient real real real real "(real \<times> css) list"
  | RadialGradient real real real real real real "(real \<times> css) list"

datatype style =
    Colour css
  | Gradient gradient
  | Pattern "int list" string

datatype css_filter =
    FilterNone
  | BlurSaturate real real

datatype ctx_op =
    Save
  | Restore
  | ClearRect real real real real
  | FillRect real real real real
  | FillRectNonFinite quotient quotient quotient quotient
  | SetFillStyle style
  | SetStrokeStyle style
  | SetGlobalAlpha real
  | SetGlobalCompositeOperation string
  | SetFilter css_filter
  | SetLineWidth real
  | BeginPath
  | MoveTo real real
  | LineTo real real
  | ClosePath
  | Fill
  | Stroke

section \<open>Colour pulse\<close>

text \<open>
  \<open>parseInt(s, 16)\<close>: leading white space is skipped (the ASCII white space here), then
  an optional sign and an optional \<open>0x\<close> prefix, then the longest run of hexadecimal
  digits; no digit at all gives \<open>NaN\<close>, which is \<open>None\<close>. \<open>parseInt16\<close> gives the integer
  the digits denote; the number \<open>parseInt\<close> returns is the double nearest to it, taken in
  \<open>hexToRgb\<close> below.
\<close>

definition hexDigit :: "char \<Rightarrow> int option" where
  "hexDigit c =
     (let n = (of_char c :: nat) in
      if 48 \<le> n \<and> n \<le> 57 then Some (int n - 48)
      else if 97 \<le> n \<and> n \<le> 102 then Some (int n - 87)
      else if 65 \<le> n \<and> n \<le> 70 then Some (int n - 55)
      else None)"

fun hexValue :: "int \<Rightarrow> string \<Rightarrow> int" where
  "hexValue acc [] = acc"
| "hexValue acc (c # cs) =
     (case hexDigit c of None \<Rightarrow> acc | Some v \<Rightarrow> hexValue (acc * 16 + v) cs)"

definition isWhiteSpace :: "char \<Rightarrow> bool" where
  "isWhiteSpace c = ((of_char c :: nat) \<in> {9, 10, 11, 12, 13, 32})"

definition parseInt16 :: "string \<Rightarrow> int option" where
  "parseInt16 s =
     (let s1 = dropWhile isWhiteSpace s;
          sign = (if take 1 s1 = ''-'' then - 1 else 1);
          s2 = (if take 1 s1 = ''-'' \<or> take 1 s1 = ''+'' then drop 1 s1 else s1);
          s3 = (if take 2 s2 = ''0x'' \<or> take 2 s2 = ''0X'' then drop 2 s2 else s2)
      in case s3 of
           [] \<Rightarrow> None
         | c # cs \<Rightarrow> (case hexDigit c of None \<Rightarrow> None | Some v \<Rightarrow> Some (sign * hexValue 0 s3)))"

text \<open>\<open>hex.replace("#", "")\<close> removes the first \<open>#\<close> only.\<close>

fun removeFirstHash :: "string \<Rightarrow> string" where
  "removeFirstHash [] = []"
| "removeFirstHash (c # cs) = (if c = CHR ''#'' then cs else c # removeFirstHash cs)"

text \<open>
  \<open>hexToRgb\<close>. \<open>bigint\<close> is the double nearest to the parsed integer, itself an integer.
  The shifts and masks work on the 32-bit integer of the number, and \<open>NaN\<close> counts as 0;
  bits 16 to 23, 8 to 15 and 0 to 7 of a 32-bit two's complement integer are those of the
  integer itself, which floor division and \<open>mod\<close> on \<open>int\<close> read.
\<close>

definition hexToRgb :: "string \<Rightarrow> int \<times> int \<times> int" where
  "hexToRgb hex =
     (let sanitized = removeFirstHash hex;
          bigint = (case parseInt16 sanitized of
                      None \<Rightarrow> 0
                    | Some n \<Rightarrow> \<lfloor>binary64 (of_int n)\<rfloor>);
          r = (bigint div 2 ^ 16) mod 256;
          g = (bigint div 2 ^ 8) mod 256;
          b = bigint mod 256
      in (r, g, b))"

definition pulseFactor :: "real \<Rightarrow> real \<Rightarrow> real" where
  "pulseFactor time amplitude = 1 + sin (time * pi * 2) * amplitude"

definition clamp :: "real \<Rightarrow> int" where
  "clamp v = min 255 (max 0 (round v))"

definition applyPulse :: "string \<Rightarrow> real \<Rightarrow> real \<Rightarrow> css" where
  "applyPulse hexColor time amplitude =
     (case hexToRgb hexColor of (r, g, b) \<Rightarrow>
        let pulse = pulseFactor time amplitude
        in Rgb (clamp (of_int r * pulse)) (clamp (of_int g * pulse)) (clamp (of_int b * pulse)))"

section \<open>Camera motion\<close>

definition getCameraMotionOffset :: "string \<Rightarrow> real \<Rightarrow> real \<Rightarrow> real \<times> real" where
  "getCameraMotionOffset motionId elapsed axis =
     (if motionId = ''dolly'' then
        (sin (elapsed * 0.4) * 420 * axis, cos (elapsed * 0.25) * 280)
      else if motionId = ''drift'' then
        (sin (elapsed * 0.6 + axis) * 320, sin (elapsed * 0.35 + axis) * 220)
      else if motionId = ''pulse'' then
        (sin (elapsed * 3) * 65, cos (elapsed * 1.5) * 45)
      else
        (cos (elapsed * 0.35) * 380, sin (elapsed * 0.3) * 200))"

definition getCameraSpeedMultiplier :: "string \<Rightarrow> real" where
  "getCameraSpeedMultiplier motionId =
     (if motionId = ''dolly'' then 1.4
      else if motionId = ''drift'' then 0.9
      else if motionId = ''pulse'' then 1.8
      else 1)"

section \<open>Layers\<close>

definition paintBackground :: "real \<Rightarrow> real \<Rightarrow> real \<Rightarrow> Mood \<Rightarrow> CinematicSettings \<Rightarrow> ctx_op list" where
  "paintBackground width height elapsed mood settings =
     (case palette mood of (palette0, palette1, palette2) \<Rightarrow>
      let gradient = LinearGradient 0 0 0 height
            [(0, applyPulse palette0 (elapsed * 0.1) 0.04),
             (0.45, applyPulse palette1 (elapsed * 0.12) 0.08),
             (1, Css palette2)];
          radial = RadialGradient
            (width * 0.5) (height * 0.35 + sin (elapsed * 0.6) * width * 0.05) (width * 0.1)
            (width * 0.5) height width
            [(0, Css (light mood @ ''90'')), (1, Css ''transparent'')]
      in [SetFillStyle (Gradient gradient),
          FillRect 0 0 width height,
          SetFillStyle (Gradient radial),
          SetGlobalCompositeOperation ''lighter'',
          FillRect 0 0 width height,
          SetGlobalCompositeOperation ''source-over'',
          SetFillStyle (Colour (Css (haze mood))),
          FillRect 0 (height * 0.65) width (height * 0.35)])"

text \<open>
  The inner loop of \<open>paintParallaxShapes\<close>: \<open>for (let x = 0; x <= width; x += 4)\<close>.
\<close>

function parallaxPath ::
  "real \<Rightarrow> real \<Rightarrow> real \<Rightarrow> real \<Rightarrow> real \<Rightarrow> real \<Rightarrow> real \<Rightarrow> real \<Rightarrow> real \<Rightarrow> ctx_op list" where
  "parallaxPath width elapsed layer baseY amp waveSpeed slope plx x =
     (if x \<le> width then
        (let normalizedX = x / width;
             offset = sin (normalizedX * pi * (3 + layer) + elapsed * waveSpeed) * amp * slope
                    + cos (normalizedX * pi * 6 + elapsed * 0.25) * 18 * plx;
             y = baseY + offset
         in (if x = 0 then MoveTo x y else LineTo x y)
            # parallaxPath width elapsed layer baseY amp waveSpeed slope plx (x + 4))
      else [])"
  by pat_completeness auto
termination
proof (relation "measure (\<lambda>(width, elapsed, layer, baseY, amp, waveSpeed, slope, plx, x).
                           nat (\<lfloor>width - x\<rfloor> + 4))")
  show "wf (measure (\<lambda>(width, elapsed, layer, baseY, amp, waveSpeed, slope, plx, x).
                           nat (\<lfloor>width - x\<rfloor> + 4)))"
    by simp
next
  fix width elapsed layer baseY amp waveSpeed slope plx x :: real
  fix xa xb xc
  assume le: "x \<le> width"
  have "\<lfloor>width - (x + 4)\<rfloor> = \<lfloor>width - x\<rfloor> - 4"
    by linarith
  moreover have "0 \<le> \<lfloor>width - x\<rfloor>"
    using le by simp
  ultimately show
    "((width, elapsed, layer, baseY, amp, waveSpeed, slope, plx, x + 4),
      (width, elapsed, layer, baseY, amp, waveSpeed, slope, plx, x))
     \<in> measure (\<lambda>(width, elapsed, layer, baseY, amp, waveSpeed, slope, plx, x).
                   nat (\<lfloor>width - x\<rfloor> + 4))"
    by simp linarith
qed

definition paintParallaxLayer :: "real \<Rightarrow> real \<Rightarrow> real \<Rightarrow> CinematicSettings \<Rightarrow> nat \<Rightarrow> ctx_op list" where
  "paintParallaxLayer width height elapsed settings layer =
     (let layers = 4;
          depth = real layer / layers;
          intensity = 1 - depth;
          baseY = height * (0.4 + depth * 0.4);
          amp = 60 + depth * 120;
          waveSpeed = (0.1 + depth * 0.2) * getCameraSpeedMultiplier (cameraMotionId settings);
          slope = 0.3 + depth * 0.5;
          gradient = LinearGradient 0 (baseY - 200) 0 height
            [(0, Rgba 0 0 0 (0.15 + depth * 0.3)), (1, Rgba 0 0 0 (0.35 + depth * 0.6))]
      in [BeginPath]
         @ parallaxPath width elapsed (real layer) baseY amp waveSpeed slope (parallax settings) 0
         @ [LineTo width height,
            LineTo 0 height,
            ClosePath,
            SetFillStyle (Gradient gradient),
            Fill,
            SetGlobalAlpha (0.18 * intensity),
            SetStrokeStyle (Colour (Rgba 255 255 255 (0.1 * intensity))),
            SetLineWidth (1.5 - depth * 1.1),
            Stroke,
            SetGlobalAlpha 1])"

definition paintParallaxShapes :: "real \<Rightarrow> real \<Rightarrow> real \<Rightarrow> CinematicSettings \<Rightarrow> ctx_op list" where
  "paintParallaxShapes width height elapsed settings =
     concat (map (paintParallaxLayer width height elapsed settings) [0 ..< 4])"

text \<open>
  The remainder \<open>a % 1\<close> of JavaScript truncates towards zero and keeps the sign of \<open>a\<close>.
\<close>

definition rem1 :: "real \<Rightarrow> real" where
  "rem1 a = a - of_int (if 0 \<le> a then \<lfloor>a\<rfloor> else \<lceil>a\<rceil>)"

definition paintLightSweep :: "real \<Rightarrow> real \<Rightarrow> real \<Rightarrow> Mood \<Rightarrow> CinematicSettings \<Rightarrow> nat \<Rightarrow> ctx_op list" where
  "paintLightSweep width height elapsed mood settings index =
     (let base = elapsed * 0.2;
          progress = rem1 (base + real index * 0.6);
          sweepX = width * 0.2 + progress * width * 0.6
                 + sin (elapsed * 0.6 + real index) * width * 0.08;
          sweepWidth = width * (0.15 + bloom settings * 0.25);
          gradient = LinearGradient (sweepX - sweepWidth) 0 (sweepX + sweepWidth) 0
            [(0, Css ''transparent''),
             (0.5, Css (light mood @ (if index = 0 then ''80'' else ''40''))),
             (1, Css ''transparent'')]
      in [SetFillStyle (Gradient gradient),
          SetGlobalCompositeOperation ''screen'',
          FillRect (sweepX - sweepWidth) (height * 0.1) (sweepWidth * 2) (height * 0.8)])"

definition paintLightSweeps :: "real \<Rightarrow> real \<Rightarrow> real \<Rightarrow> Mood \<Rightarrow> CinematicSettings \<Rightarrow> ctx_op list" where
  "paintLightSweeps width height elapsed mood settings =
     concat (map (paintLightSweep width height elapsed mood settings) [0 ..< 3])
     @ [SetGlobalCompositeOperation ''source-over'']"

section \<open>Particles\<close>

record Particle =
  baseX :: real
  baseY :: real
  amplitude :: real
  speed :: real
  radius :: real
  axis :: real

text \<open>
  \<open>Math.random\<close> is a stream \<open>rnd\<close> of reals, given from outside, and a count \<open>k\<close> of the
  draws made so far. The object literal of a particle draws five numbers, in the order of
  its fields. \<open>Array.from({ length: n })\<close> has \<open>n\<close> elements, and none when \<open>n\<close> is negative;
  above \<open>2^32 - 1\<close> it throws a \<open>RangeError\<close>, which is taken up where the session starts.
\<close>

definition newParticle :: "(nat \<Rightarrow> real) \<Rightarrow> nat \<Rightarrow> nat \<Rightarrow> Particle" where
  "newParticle rnd k index =
     \<lparr>baseX = rnd k,
      baseY = rnd (k + 1),
      amplitude = 0.05 + rnd (k + 2) * 0.35,
      speed = 0.6 + rnd (k + 3) * 1.2,
      radius = 0.6 + rnd (k + 4) * 1.9,
      axis = (if index mod 2 = 0 then 1 else - 1)\<rparr>"

definition particleCount :: "CinematicSettings \<Rightarrow> int" where
  "particleCount effectiveSettings =
     round (mul64 120 (add64 (parallax effectiveSettings) 0.5))"

definition newParticles :: "(nat \<Rightarrow> real) \<Rightarrow> nat \<Rightarrow> int \<Rightarrow> Particle list" where
  "newParticles rnd k count = map (\<lambda>index. newParticle rnd (k + 5 * index) index) [0 ..< nat count]"

definition paintParticle ::
  "real \<Rightarrow> real \<Rightarrow> real \<Rightarrow> CinematicSettings \<Rightarrow> Mood \<Rightarrow> Particle \<Rightarrow> nat \<Rightarrow> ctx_op list" where
  "paintParticle width height elapsed settings mood particle index =
     (case getCameraMotionOffset (cameraMotionId settings) elapsed (axis particle) of
        (motion_x, motion_y) \<Rightarrow>
      let x = (baseX particle + sin (elapsed * 0.17 + real index) * 0.02 + motion_x * 0.001) * width
            + sin (elapsed * speed particle * 0.2 + real index) * width * 0.02;
          y = (baseY particle
               + cos (elapsed * 0.12 + real index) * 0.02
               + motion_y * 0.001
               + sin (elapsed * speed particle * 0.1 + real index) * 0.01)
              * height;
          r = radius particle * (1 + sin (elapsed * speed particle) * 0.4);
          gradient = RadialGradient x y 0 x y (r * 18)
            [(0, Css (light mood @ ''dd'')), (1, Css ''transparent'')]
      in [SetFillStyle (Gradient gradient),
          FillRect (x - r * 10) (y - r * 10) (r * 20) (r * 20)])"

definition paintParticles ::
  "real \<Rightarrow> real \<Rightarrow> real \<Rightarrow> Particle list \<Rightarrow> CinematicSettings \<Rightarrow> Mood \<Rightarrow> ctx_op list" where
  "paintParticles width height elapsed particles settings mood =
     (case palette mood of (palette0, palette1, palette2) \<Rightarrow>
      [Save,
       SetGlobalCompositeOperation ''lighter'',
       SetGlobalAlpha (0.4 + bloom settings * 0.3)]
      @ concat (map (\<lambda>(particle, index). paintParticle width height elapsed settings mood particle index)
                    (zip particles [0 ..< length particles]))
      @ [SetGlobalAlpha (0.8 * chromaShift settings),
         SetGlobalCompositeOperation ''screen'',
         SetFilter (BlurSaturate (1.5 + bloom settings * 5) (1.3 + chromaShift settings * 0.7)),
         SetFillStyle (Colour (Css (palette2 @ ''66''))),
         FillRect 0 0 width height,
         SetFilter FilterNone,
         Restore])"

section \<open>Letterbox bars and grain\<close>

text \<open>
  \<open>paintBars\<close>. The source divides the width by the height and by the target ratio, and
  either may be zero. When \<open>desiredHeight\<close> is \<open>+Infinity\<close> or \<open>NaN\<close> the thickness is
  \<open>-Infinity\<close> or \<open>NaN\<close> and the test \<open>barHeight > 0\<close> fails; when it is \<open>-Infinity\<close> the
  thickness is \<open>+Infinity\<close> and \<open>fillRect\<close> is called with it.
\<close>

definition paintBars :: "real \<Rightarrow> real \<Rightarrow> CinematicSettings \<Rightarrow> ctx_op list" where
  "paintBars width height settings =
     (let targetAspect = aspectRatio settings;
          currentAspect = div64 width height
      in [Save, SetGlobalAlpha 0.75, SetFillStyle (Colour (Css ''rgba(0,0,0,0.85)''))]
         @ (if greaterThan64 currentAspect targetAspect then
              (case div64 width targetAspect of
                 Quotient desiredHeight \<Rightarrow>
                   (let barHeight = binary64 (sub64 height desiredHeight / 2)
                    in if barHeight > 0 then
                         [FillRect 0 0 width barHeight,
                          FillRect 0 (sub64 height barHeight) width barHeight]
                       else [])
               | PositiveInfinity \<Rightarrow> []
               | NegativeInfinity \<Rightarrow>
                   [FillRectNonFinite (Quotient 0) (Quotient 0) (Quotient width) PositiveInfinity,
                    FillRectNonFinite (Quotient 0) NegativeInfinity (Quotient width)
                      PositiveInfinity]
               | NotANumber \<Rightarrow> [])
            else
              (let desiredWidth = mul64 height targetAspect;
                   barWidth = binary64 (sub64 width desiredWidth / 2)
               in if barWidth > 0 then
                    [FillRect 0 0 barWidth height,
                     FillRect (sub64 width barWidth) 0 barWidth height]
                  else []))
         @ [Restore])"

text \<open>
  \<open>paintGrain\<close>. \<open>createPattern\<close> of the platform is a parameter; it may give no pattern.
  The grain canvas is the list of the tints last written to it.
\<close>

definition paintGrain ::
  "(int list \<Rightarrow> string \<Rightarrow> style option) \<Rightarrow> real \<Rightarrow> real \<Rightarrow> int list \<Rightarrow> CinematicSettings
   \<Rightarrow> ctx_op list" where
  "paintGrain createPattern width height grainCanvas settings =
     [Save, SetGlobalAlpha (grain settings)]
     @ (case createPattern grainCanvas ''repeat'' of
          Some pattern \<Rightarrow> [SetFillStyle pattern, FillRect 0 0 width height]
        | None \<Rightarrow> [])
     @ [Restore]"

section \<open>Frame\<close>

text \<open>\<open>drawFrame\<close>; the fields of its argument object are the arguments.\<close>

definition drawFrame ::
  "(int list \<Rightarrow> string \<Rightarrow> style option) \<Rightarrow> real \<Rightarrow> real \<Rightarrow> real \<Rightarrow> CinematicSettings \<Rightarrow> Mood
   \<Rightarrow> Particle list \<Rightarrow> int list \<Rightarrow> ctx_op list" where
  "drawFrame createPattern width height elapsed settings mood particles grainCanvas =
     [Save, ClearRect 0 0 width height]
     @ paintBackground width height elapsed mood settings
     @ paintParallaxShapes width height elapsed settings
     @ paintLightSweeps width height elapsed mood settings
     @ paintParticles width height elapsed particles settings mood
     @ paintBars width height settings
     @ paintGrain createPattern width height grainCanvas settings
     @ [Restore]"

section \<open>Capture session\<close>

text \<open>
  \<open>handleGenerate\<close> of the studio page runs against the browser: the canvas, the media
  recorder, timers, the clock and the registry of object URLs. What the browser answers
  during one run is the record \<open>Capture\<close>; the state of the component, its refs and the
  browser resources it holds are the record \<open>Studio\<close>. A value thrown is either an \<open>Error\<close>
  object with its message or something else.
\<close>

datatype thrown = ErrorObject string | OtherValue

record MediaStream =
  tracks :: "nat list"

record MediaRecorder =
  stream :: MediaStream
  mimeType :: string
  videoBitsPerSecond :: int

text \<open>
  What happens while the routine is suspended: a tick of the progress interval, with the
  reading of \<open>performance.now()\<close> it makes, or an event of the recorder (\<open>dataavailable\<close>
  with its data, which may be absent, \<open>stop\<close>, or \<open>error\<close> with the error it carries, if
  any).
\<close>

datatype async_event =
    Tick real
  | DataAvailable "nat list option"
  | Stop
  | ErrorEvent "thrown option"

datatype promise = Pending | Resolved nat | Rejected thrown

datatype call =
    SetProgress real
  | RevokeObjectURL nat
  | CreateObjectURL nat
  | CaptureStream real
  | NewMediaRecorder
  | RecorderStart
  | RecorderStop
  | SetInterval real nat
  | ClearInterval nat
  | TrackStop nat

record Capture =
  canvasCurrent :: bool
  hasMediaRecorder :: bool
  captureStream :: "MediaStream option"
  newMediaRecorder :: "thrown option"
  recorderStart :: "thrown option"
  performanceNow :: real
  interval :: nat
  whileRecording :: "async_event list"
  inactiveAtDeadline :: bool
  afterDeadline :: "async_event list"

text \<open>
  \<open>canvasCurrent\<close>: \<open>canvasRef.current\<close> is set. \<open>hasMediaRecorder\<close>: \<open>window\<close> and
  \<open>MediaRecorder\<close> are defined. \<open>captureStream\<close>: the stream \<open>canvas.captureStream\<close> gives,
  if any. \<open>newMediaRecorder\<close> and \<open>recorderStart\<close>: what the constructor and
  \<open>recorder.start()\<close> throw, if they throw. \<open>performanceNow\<close>: the clock when recording starts.
  \<open>interval\<close>: the handle \<open>setInterval\<close> returns. \<open>whileRecording\<close>: the events before the
  stop deadline. \<open>inactiveAtDeadline\<close>: \<open>recorder.state\<close> is \<open>"inactive"\<close> at the deadline.
  \<open>afterDeadline\<close>: the events that follow.

  In \<open>Studio\<close>, \<open>liveTracks\<close> are the media tracks not yet stopped, \<open>activeIntervals\<close> the
  interval timers not yet cleared, \<open>objectUrls\<close> the registered object URLs with their
  blobs; \<open>nextUrl\<close> numbers the URLs, so that each \<open>createObjectURL\<close> gives a new one; \<open>calls\<close>
  lists the calls made to the browser and to \<open>setProgress\<close>, in order.
\<close>

record Studio =
  isGenerating :: bool
  progress :: real
  videoUrl :: "nat option"
  error :: "string option"
  mediaRecorderRef :: "MediaRecorder option"
  progressIntervalRef :: "nat option"
  liveTracks :: "nat set"
  activeIntervals :: "nat set"
  objectUrls :: "nat \<rightharpoonup> nat list"
  nextUrl :: nat
  calls :: "call list"

definition called :: "call \<Rightarrow> Studio \<Rightarrow> Studio" where
  "called c s = s\<lparr>calls := calls s @ [c]\<rparr>"

definition setProgress :: "real \<Rightarrow> Studio \<Rightarrow> Studio" where
  "setProgress p s = called (SetProgress p) (s\<lparr>progress := p\<rparr>)"

definition revokeObjectURL :: "nat \<Rightarrow> Studio \<Rightarrow> Studio" where
  "revokeObjectURL u s = called (RevokeObjectURL u) (s\<lparr>objectUrls := (objectUrls s)(u := None)\<rparr>)"

definition createObjectURL :: "nat list \<Rightarrow> Studio \<Rightarrow> nat \<times> Studio" where
  "createObjectURL blob s =
     (nextUrl s,
      called (CreateObjectURL (nextUrl s))
        (s\<lparr>objectUrls := (objectUrls s)(nextUrl s \<mapsto> blob), nextUrl := nextUrl s + 1\<rparr>))"

text \<open>\<open>window.setInterval\<close> with a delay in milliseconds; \<open>i\<close> is the handle it returns.\<close>

definition setInterval :: "real \<Rightarrow> nat \<Rightarrow> Studio \<Rightarrow> Studio" where
  "setInterval delay i s =
     called (SetInterval delay i) (s\<lparr>activeIntervals := activeIntervals s \<union> {i}\<rparr>)"

definition clearInterval :: "nat \<Rightarrow> Studio \<Rightarrow> Studio" where
  "clearInterval i s = called (ClearInterval i) (s\<lparr>activeIntervals := activeIntervals s - {i}\<rparr>)"

definition trackStop :: "nat \<Rightarrow> Studio \<Rightarrow> Studio" where
  "trackStop t s = called (TrackStop t) (s\<lparr>liveTracks := liveTracks s - {t}\<rparr>)"

text \<open>
  The handlers: the interval callback, \<open>ondataavailable\<close>, \<open>onstop\<close> and \<open>onerror\<close>. A
  promise settles once; a later \<open>resolve\<close> or \<open>reject\<close> does nothing. When \<open>totalDuration\<close>
  is 0 the quotient of the source is \<open>NaN\<close> or infinite and the one here is 0.
\<close>

fun handleEvent ::
  "real \<Rightarrow> real \<Rightarrow> async_event \<Rightarrow> Studio \<times> nat list list \<times> promise
   \<Rightarrow> Studio \<times> nat list list \<times> promise" where
  "handleEvent startTime totalDuration (Tick t) (s, blobs, stopPromise) =
     (let elapsed = t - startTime
      in (setProgress (min 100 ((elapsed / totalDuration) * 100)) s, blobs, stopPromise))"
| "handleEvent startTime totalDuration (DataAvailable d) (s, blobs, stopPromise) =
     (case d of
        None \<Rightarrow> (s, blobs, stopPromise)
      | Some bytes \<Rightarrow>
          if length bytes > 0 then (s, blobs @ [bytes], stopPromise) else (s, blobs, stopPromise))"
| "handleEvent startTime totalDuration Stop (s, blobs, stopPromise) =
     (let blob = concat blobs in
      case createObjectURL blob s of
        (url, s1) \<Rightarrow> (s1, blobs, if stopPromise = Pending then Resolved url else stopPromise))"
| "handleEvent startTime totalDuration (ErrorEvent e) (s, blobs, stopPromise) =
     (let recorderError =
            (case e of
               Some x \<Rightarrow> x
             | None \<Rightarrow> ErrorObject (''Erreur inconnue pendant l'' @ [CHR 0xE2, CHR 0x80, CHR 0x99]
                                      @ ''enregistrement.''))
      in (s, blobs, if stopPromise = Pending then Rejected recorderError else stopPromise))"

text \<open>
  \<open>await stopPromise\<close>: the routine resumes as soon as the promise is settled, and until then
  the events go on. When they run out with the promise still pending, the routine never
  resumes.
\<close>

fun awaitStop ::
  "real \<Rightarrow> real \<Rightarrow> async_event list \<Rightarrow> Studio \<times> nat list list \<times> promise
   \<Rightarrow> Studio \<times> nat list list \<times> promise" where
  "awaitStop startTime totalDuration [] (s, blobs, stopPromise) = (s, blobs, stopPromise)"
| "awaitStop startTime totalDuration (e # es) (s, blobs, stopPromise) =
     (if stopPromise = Pending
      then awaitStop startTime totalDuration es
             (handleEvent startTime totalDuration e (s, blobs, stopPromise))
      else (s, blobs, stopPromise))"

text \<open>The clock readings of the interval ticks among some events.\<close>

fun ticksOf :: "async_event list \<Rightarrow> real list" where
  "ticksOf [] = []"
| "ticksOf (Tick t # es) = t # ticksOf es"
| "ticksOf (e # es) = ticksOf es"

text \<open>
  The \<open>try\<close> block of \<open>handleGenerate\<close>, in three parts. Each gives the state it reaches and
  how the block is left: at its end, by a throw, or never, when the routine stays suspended
  at \<open>await stopPromise\<close>. The \<open>videoUrl\<close> the callback reads is the one of the state it
  starts in.
\<close>

datatype exit = Completes | Throws thrown | NeverResumes

text \<open>First the reset of the component state and the release of the previous video.\<close>

definition resetForCapture :: "Studio \<Rightarrow> Studio" where
  "resetForCapture s =
     (let s1 = s\<lparr>error := None\<rparr>;
          s2 = s1\<lparr>isGenerating := True\<rparr>;
          s3 = setProgress 0 s2
      in case videoUrl s of
           Some u \<Rightarrow> (revokeObjectURL u s3)\<lparr>videoUrl := None\<rparr>
         | None \<Rightarrow> s3)"

text \<open>
  Last the timed part, from \<open>const totalDuration\<close> on: the progress interval, the wait for
  the stop deadline, the stop of the recorder and the wait for \<open>stopPromise\<close>.
\<close>

definition awaitRecording ::
  "CinematicSettings \<Rightarrow> Capture \<Rightarrow> Studio \<Rightarrow> Studio \<times> exit" where
  "awaitRecording settings env s =
     (let totalDuration = CinematicSettings.duration settings * 1000;
          startTime = performanceNow env;
          s1 = (setInterval 120 (interval env) s)\<lparr>progressIntervalRef := Some (interval env)\<rparr>;
          r1 = foldl (\<lambda>acc e. handleEvent startTime totalDuration e acc)
                 (s1, [], Pending) (whileRecording env);
          r2 = (case r1 of (s2, blobs, stopPromise) \<Rightarrow>
                  (if \<not> inactiveAtDeadline env then called RecorderStop s2 else s2,
                   blobs, stopPromise))
      in case awaitStop startTime totalDuration (afterDeadline env) r2 of
           (s3, blobs, Pending) \<Rightarrow> (s3, NeverResumes)
         | (s3, blobs, Rejected e) \<Rightarrow> (s3, Throws e)
         | (s3, blobs, Resolved url) \<Rightarrow>
             (setProgress 100 (s3\<lparr>videoUrl := Some url\<rparr>), Completes))"

text \<open>Between them the stream is captured and the recorder made and started.\<close>

definition tryBlock :: "CinematicSettings \<Rightarrow> Capture \<Rightarrow> Studio \<Rightarrow> Studio \<times> exit" where
  "tryBlock settings env s =
     (let s1 = called (CaptureStream (frameRate settings)) (resetForCapture s)
      in case captureStream env of
           None \<Rightarrow>
             (s1, Throws (ErrorObject (''Impossible de capturer le flux vid''
                                         @ [CHR 0xC3, CHR 0xA9] @ ''o depuis le canvas.'')))
         | Some mediaStream \<Rightarrow>
             (let s2 = s1\<lparr>liveTracks := liveTracks s1 \<union> set (tracks mediaStream)\<rparr>;
                  s3 = called NewMediaRecorder s2
              in case newMediaRecorder env of
                   Some e \<Rightarrow> (s3, Throws e)
                 | None \<Rightarrow>
                     (let recorder =
                            \<lparr>stream = mediaStream,
                             mimeType = ''video/webm;codecs=vp9'',
                             videoBitsPerSecond =
                               max 2500000 (round (mul64 6000000 (bloom settings)))\<rparr>;
                          s4 = s3\<lparr>mediaRecorderRef := Some recorder\<rparr>;
                          s5 = called RecorderStart s4
                      in case recorderStart env of
                           Some e \<Rightarrow> (s5, Throws e)
                         | None \<Rightarrow> awaitRecording settings env s5)))"

definition catchBlock :: "thrown \<Rightarrow> Studio \<Rightarrow> Studio" where
  "catchBlock err s =
     s\<lparr>error := Some (case err of
                        ErrorObject message \<Rightarrow> message
                      | OtherValue \<Rightarrow> ''Une erreur inattendue est survenue pendant la g''
                                      @ [CHR 0xC3, CHR 0xA9] @ ''n'' @ [CHR 0xC3, CHR 0xA9]
                                      @ ''ration.'')\<rparr>"

text \<open>
  The \<open>finally\<close> block. The handle 0 is falsy, so an interval with that handle would not be
  cleared.
\<close>

definition finallyBlock :: "Studio \<Rightarrow> Studio" where
  "finallyBlock s =
     (let s1 = (case progressIntervalRef s of
                  Some i \<Rightarrow> if i \<noteq> 0 then clearInterval i s else s
                | None \<Rightarrow> s);
          s2 = (case mediaRecorderRef s1 of
                  Some recorder \<Rightarrow> foldl (\<lambda>acc track. trackStop track acc) s1 (tracks (stream recorder))
                | None \<Rightarrow> s1)
      in s2\<lparr>isGenerating := False\<rparr>)"

text \<open>
  A run of \<open>handleGenerate\<close> either returns or stays suspended for ever at
  \<open>await stopPromise\<close>; either way the component and the browser are left in a state.
\<close>

datatype run = Returned Studio | Suspended Studio

fun stateOf :: "run \<Rightarrow> Studio" where
  "stateOf (Returned s) = s"
| "stateOf (Suspended s) = s"

fun returned :: "run \<Rightarrow> bool" where
  "returned (Returned s) = True"
| "returned (Suspended s) = False"

definition handleGenerateRun :: "CinematicSettings \<Rightarrow> Capture \<Rightarrow> Studio \<Rightarrow> run" where
  "handleGenerateRun settings env s =
     (if \<not> canvasCurrent env then
        Returned (s\<lparr>error := Some (''Canvas introuvable pour l'' @ [CHR 0xE2, CHR 0x80, CHR 0x99]
                                    @ ''enregistrement.'')\<rparr>)
      else if \<not> hasMediaRecorder env then
        Returned (s\<lparr>error := Some (''MediaRecorder n'' @ [CHR 0xE2, CHR 0x80, CHR 0x99]
                                    @ ''est pas disponible dans ce navigateur. Essayez Chrome ou Edge version r''
                                    @ [CHR 0xC3, CHR 0xA9] @ ''cente.'')\<rparr>)
      else
        (case tryBlock settings env s of
           (s1, Completes) \<Rightarrow> Returned (finallyBlock s1)
         | (s1, Throws err) \<Rightarrow> Returned (finallyBlock (catchBlock err s1))
         | (s1, NeverResumes) \<Rightarrow> Suspended s1))"

text \<open>\<open>handleGenerate\<close> as a function: the state it returns in, and \<open>None\<close> when it never returns.\<close>

definition handleGenerate :: "CinematicSettings \<Rightarrow> Capture \<Rightarrow> Studio \<Rightarrow> Studio option" where
  "handleGenerate settings env s =
     (case handleGenerateRun settings env s of
        Returned s' \<Rightarrow> Some s'
      | Suspended s' \<Rightarrow> None)"

text \<open>The values passed to \<open>setProgress\<close>, in order.\<close>

fun progressReports :: "call list \<Rightarrow> real list" where
  "progressReports [] = []"
| "progressReports (SetProgress p # cs) = p # progressReports cs"
| "progressReports (c # cs) = progressReports cs"

text \<open>
  Notions for stating what the parts of \<open>handleGenerate\<close> do. \<open>sameRefs\<close>: two states agree
  on the refs, the tracks, the timers and the component state other than the progress.
  \<open>settles\<close>: the event settles a pending \<open>stopPromise\<close>. \<open>untilSettled\<close>: the events up to
  and including the first that settles the promise. \<open>recorderStarts\<close>: the stream is
  captured and the recorder is made and started without a throw. \<open>handledEvents\<close>: the
  events whose handlers run before the routine resumes, which are those before the
  deadline and, if the promise is still pending then, those after it until the promise is
  settled. \<open>settlement\<close>: the first event that settles the promise, if any. \<open>recording\<close>: the
  state in which the timed part of the \<open>try\<close> block starts, when nothing has thrown.
\<close>

definition sameRefs :: "Studio \<Rightarrow> Studio \<Rightarrow> bool" where
  "sameRefs s s' =
     (mediaRecorderRef s' = mediaRecorderRef s \<and> progressIntervalRef s' = progressIntervalRef s
    \<and> liveTracks s' = liveTracks s \<and> activeIntervals s' = activeIntervals s
    \<and> videoUrl s' = videoUrl s \<and> error s' = error s \<and> isGenerating s' = isGenerating s)"

fun settles :: "async_event \<Rightarrow> bool" where
  "settles Stop = True"
| "settles (ErrorEvent e) = True"
| "settles (Tick t) = False"
| "settles (DataAvailable d) = False"

fun untilSettled :: "async_event list \<Rightarrow> async_event list" where
  "untilSettled [] = []"
| "untilSettled (e # es) = (if settles e then [e] else e # untilSettled es)"

definition recorderStarts :: "Capture \<Rightarrow> bool" where
  "recorderStarts env =
     (captureStream env \<noteq> None \<and> newMediaRecorder env = None \<and> recorderStart env = None)"

definition handledEvents :: "Capture \<Rightarrow> async_event list" where
  "handledEvents env =
     (if recorderStarts env then
        whileRecording env
        @ (if list_ex settles (whileRecording env) then [] else untilSettled (afterDeadline env))
      else [])"

definition settlement :: "Capture \<Rightarrow> async_event option" where
  "settlement env = find settles (whileRecording env @ afterDeadline env)"

definition recording :: "CinematicSettings \<Rightarrow> MediaStream \<Rightarrow> Studio \<Rightarrow> Studio" where
  "recording settings ms s =
     called RecorderStart
       ((called NewMediaRecorder
          ((called (CaptureStream (frameRate settings)) (resetForCapture s))
             \<lparr>liveTracks := liveTracks (resetForCapture s) \<union> set (tracks ms)\<rparr>))
        \<lparr>mediaRecorderRef :=
           Some \<lparr>stream = ms, mimeType = ''video/webm;codecs=vp9'',
                 videoBitsPerSecond = max 2500000 (round (mul64 6000000 (bloom settings)))\<rparr>\<rparr>)"

section \<open>Render session\<close>

text \<open>
  The effect of \<open>CinematicCanvas\<close> sets a session up and \<open>renderFrame\<close> paints one frame
  per animation tick. The values the closure of \<open>renderFrame\<close> holds are the fields of the
  session. The grain tile is a \<open>Uint8ClampedArray\<close>: a stored number is clamped to 0..255
  and rounded to the nearest integer, a half to the even one; the tile is kept as the tint
  of each of its 240 by 135 texels.
\<close>

record RenderSession =
  width :: real
  height :: real
  effectiveSettings :: CinematicSettings
  mood :: Mood
  startTime :: real
  particles :: "Particle list"
  grainCtx :: bool
  grainCanvas :: "int list"
  randomDraws :: nat
  animationFrameRef :: "nat option"

definition toUint8Clamped :: "real \<Rightarrow> int" where
  "toUint8Clamped x =
     (if x \<le> 0 then 0
      else if 255 \<le> x then 255
      else (let f = \<lfloor>x\<rfloor> in
            if x - of_int f < 1 / 2 then f
            else if 1 / 2 < x - of_int f then f + 1
            else if even f then f else f + 1))"

definition generateGrain :: "(nat \<Rightarrow> real) \<Rightarrow> RenderSession \<Rightarrow> RenderSession" where
  "generateGrain rnd st =
     (if \<not> grainCtx st then st
      else st\<lparr>grainCanvas :=
                 map (\<lambda>j. toUint8Clamped (mul64 (rnd (randomDraws st + j)) 255)) [0 ..< 240 * 135],
              randomDraws := randomDraws st + 240 * 135\<rparr>)"

text \<open>
  The body of the effect. \<open>canvas\<close> and \<open>ctx\<close> say whether the canvas element and its 2D
  context exist; without either the effect returns at once and there is no session.
  \<open>getResolution\<close> and \<open>getMood\<close> of the catalogue are parameters. The settings record has
  every field, so spreading it over \<open>defaultSettings\<close> gives the settings themselves.
  \<open>now\<close> is the reading of \<open>performance.now()\<close>, \<open>k\<close> the number of random draws made
  before, \<open>handle\<close> what \<open>requestAnimationFrame\<close> returns. With a particle count above
  \<open>2^32 - 1\<close> the effect is left by the \<open>RangeError\<close> of \<open>Array.from\<close>, and there is no
  session either.
\<close>

definition startSession ::
  "(string \<Rightarrow> real \<Rightarrow> real \<times> real) \<Rightarrow> (string \<Rightarrow> Mood) \<Rightarrow> (nat \<Rightarrow> real) \<Rightarrow>
   bool \<Rightarrow> bool \<Rightarrow> bool \<Rightarrow> real \<Rightarrow> nat \<Rightarrow> nat \<Rightarrow> CinematicSettings \<Rightarrow> RenderSession option" where
  "startSession getResolution getMood rnd canvas ctx hasGrainCtx now k handle settings =
     (if \<not> canvas then None
      else if \<not> ctx then None
      else
        (let effective = settings in
         case getResolution (resolutionPresetId effective) (aspectRatio effective) of
           (w, h) \<Rightarrow>
         let count = particleCount effective in
         if 4294967295 < count then None
         else
         let st = \<lparr>width = w,
                   height = h,
                   effectiveSettings = effective,
                   mood = getMood (moodId effective),
                   startTime = now,
                   particles = newParticles rnd k count,
                   grainCtx = hasGrainCtx,
                   grainCanvas = [],
                   randomDraws = k + 5 * nat count,
                   animationFrameRef = None\<rparr>
         in Some ((generateGrain rnd st)\<lparr>animationFrameRef := Some handle\<rparr>)))"

definition renderFrame ::
  "(int list \<Rightarrow> string \<Rightarrow> style option) \<Rightarrow> (nat \<Rightarrow> real) \<Rightarrow> RenderSession \<Rightarrow> real \<times> nat
   \<Rightarrow> ctx_op list \<times> RenderSession" where
  "renderFrame createPattern rnd st tick =
     (case tick of (timestamp, handle) \<Rightarrow>
      let elapsed = (timestamp - startTime st) / 1000;
          st1 = generateGrain rnd st;
          ops = drawFrame createPattern (width st1) (height st1) elapsed (effectiveSettings st1)
                  (mood st1) (particles st1) (grainCanvas st1)
      in (ops, st1\<lparr>animationFrameRef := Some handle\<rparr>))"

text \<open>
  A session running over the ticks of the display, each a timestamp and the handle of the
  next animation request; the result is the frames painted and the session afterwards.
\<close>

fun renderFrames ::
  "(int list \<Rightarrow> string \<Rightarrow> style option) \<Rightarrow> (nat \<Rightarrow> real) \<Rightarrow> RenderSession \<Rightarrow> (real \<times> nat) list
   \<Rightarrow> ctx_op list list \<times> RenderSession" where
  "renderFrames createPattern rnd st [] = ([], st)"
| "renderFrames createPattern rnd st (tick # ticks) =
     (case renderFrame createPattern rnd st tick of
        (ops, st1) \<Rightarrow>
          (case renderFrames createPattern rnd st1 ticks of
             (frames, st2) \<Rightarrow> (ops # frames, st2)))"

section \<open>Catalogue lookup\<close>

text \<open>
  Modelled from the spec: \<open>getMood\<close> of \<open>lib/cinematicPresets\<close>, which is not among the
  sources. The catalogue of moods is a fixed table looked up by id; an id that is absent
  resolves to a designated default entry. The table and the default are parameters.
\<close>

definition getMood :: "Mood list \<Rightarrow> Mood \<Rightarrow> string \<Rightarrow> Mood" where
  "getMood moods defaultMood moodId' =
     (case find (\<lambda>m. Mood.id m = moodId') moods of Some m \<Rightarrow> m | None \<Rightarrow> defaultMood)"

text \<open>
  Modelled from the spec: \<open>getCameraMotion\<close> of \<open>lib/cinematicPresets\<close>, which is not
  among the sources; the same lookup contract as \<open>getMood\<close>.
\<close>

definition getCameraMotion :: "CameraMotion list \<Rightarrow> CameraMotion \<Rightarrow> string \<Rightarrow> CameraMotion" where
  "getCameraMotion cameraMotions defaultMotion motionId =
     (case find (\<lambda>c. CameraMotion.id c = motionId) cameraMotions of
        Some c \<Rightarrow> c
      | None \<Rightarrow> defaultMotion)"

section \<open>Concrete inputs\<close>

text \<open>
  Settings of a six-second capture at 30 frames per second, 16:9, bloom one half, and a few
  catalogue entries, for evaluating the functions above.
\<close>

definition scenarioSettings :: CinematicSettings where
  "scenarioSettings =
     \<lparr>duration = 6, frameRate = 30, resolutionPresetId = ''hd'', aspectRatio = 16 / 9,
      moodId = ''noir'', cameraMotionId = ''orbit'', bloom = 0.5, grain = 0.5, parallax = 0.5,
      chromaShift = 0.2\<rparr>"

definition noir :: Mood where
  "noir = \<lparr>Mood.id = ''noir'', name = ''Noir'', description = ''Contraste'',
            palette = (''#0b0b12'', ''#1f2937'', ''#111827''), light = ''#e5e7eb'',
            haze = ''#00000055''\<rparr>"

definition neon :: Mood where
  "neon = \<lparr>Mood.id = ''neon'', name = ''Neon'', description = ''Electrique'',
            palette = (''#12002b'', ''#ff2d95'', ''#00e5ff''), light = ''#ff8000'',
            haze = ''#12002b55''\<rparr>"

definition orbit :: CameraMotion where
  "orbit = \<lparr>CameraMotion.id = ''orbit'', name = ''Orbit'', description = ''Rotation lente''\<rparr>"

definition dolly :: CameraMotion where
  "dolly = \<lparr>CameraMotion.id = ''dolly'', name = ''Dolly'', description = ''Travelling avant''\<rparr>"



text \<open>
  A studio that has generated nothing yet, and one that holds a previous video; a browser
  in which the capture runs to its end, with two ticks of the progress interval before the
  deadline and one after it; and a browser whose \<open>MediaRecorder\<close> constructor rejects the
  container format. \<open>bloomAboveHalf\<close> is the double nearest to 0.50000075, as a bloom, and
  \<open>parallaxNearEightieth\<close> the double nearest to 0.0125, as a parallax.
\<close>

definition bloomAboveHalf :: real where
  "bloomAboveHalf = 4503606382769937 / 2 ^ 53"

definition parallaxNearEightieth :: real where
  "parallaxNearEightieth = 3602879701896397 / 2 ^ 58"


definition studio0 :: Studio where
  "studio0 =
     \<lparr>isGenerating = False, progress = 0, videoUrl = None, error = None,
      mediaRecorderRef = None, progressIntervalRef = None, liveTracks = {},
      activeIntervals = {}, objectUrls = Map.empty, nextUrl = 0, calls = []\<rparr>"

definition studioWithVideo :: Studio where
  "studioWithVideo = studio0\<lparr>videoUrl := Some 0, objectUrls := [0 \<mapsto> [9, 9]], nextUrl := 1\<rparr>"

definition captureOk :: Capture where
  "captureOk =
     \<lparr>canvasCurrent = True, hasMediaRecorder = True,
      captureStream = Some \<lparr>tracks = [1]\<rparr>,
      newMediaRecorder = None, recorderStart = None,
      performanceNow = 1000, interval = 7,
      whileRecording = [Tick 1120, DataAvailable (Some [1, 2, 3]), Tick 4000],
      inactiveAtDeadline = False,
      afterDeadline = [Tick 7000, DataAvailable (Some [4]), Stop]\<rparr>"

definition captureUnsupported :: Capture where
  "captureUnsupported = captureOk\<lparr>newMediaRecorder := Some (ErrorObject ''NotSupportedError'')\<rparr>"

text \<open>
  A browser whose recorder never fires \<open>stop\<close>, and one whose recorder fails while
  recording: it fires \<open>error\<close>, then \<open>dataavailable\<close> and \<open>stop\<close>, and is inactive at the
  deadline.
\<close>

definition captureNeverStops :: Capture where
  "captureNeverStops = captureOk\<lparr>afterDeadline := [Tick 7000]\<rparr>"

definition captureRecorderFails :: Capture where
  "captureRecorderFails =
     captureOk\<lparr>whileRecording := [Tick 1120, ErrorEvent None, DataAvailable (Some [1, 2, 3]), Stop],
               inactiveAtDeadline := True,
               afterDeadline := []\<rparr>"

section \<open>Numbers: properties\<close>

text \<open>
  Rounding to the nearest double: its value once the exponent is known, its sign, and that
  it leaves a double as it is and gives a double; halving a double is exact above the
  smallest exponent.
\<close>

lemma roundTiesToEven_of_int [simp]: "roundTiesToEven (of_int n) = n"
  by (simp add: roundTiesToEven_def)

lemma roundTiesToEven_ge: "of_int n \<le> x \<Longrightarrow> n \<le> roundTiesToEven x"
proof -
  assume "of_int n \<le> x"
  then have "n \<le> \<lfloor>x\<rfloor>" by (simp add: le_floor_iff)
  then show ?thesis by (auto simp: roundTiesToEven_def Let_def)
qed

lemma roundTiesToEven_le: "x \<le> of_int n \<Longrightarrow> roundTiesToEven x \<le> n"
proof (cases "x = of_int n")
  case True
  then show ?thesis by simp
next
  case False
  assume "x \<le> of_int n"
  with False have "x < of_int n" by simp
  then have "\<lfloor>x\<rfloor> < n" by (simp add: floor_less_iff)
  then show ?thesis by (auto simp: roundTiesToEven_def Let_def)
qed

lemma floor_log2:
  assumes "2 powi k \<le> x" "x < 2 powi (k + 1)"
  shows "\<lfloor>log 2 x\<rfloor> = k"
proof -
  have "0 < (2 :: real) powi k" by simp
  then have x: "0 < x" using assms(1) by (rule less_le_trans)
  have 1: "2 powr (real_of_int (k + 1)) = 2 powi (k + 1)"
    by (rule powr_real_of_int') simp_all
  have 2: "2 powr (real_of_int k) = 2 powi k"
    by (rule powr_real_of_int') simp_all
  show ?thesis
    unfolding floor_log_eq_powr_iff[OF x, of 2 k, simplified] using assms 1 2 by simp
qed

lemma floor_log2_bounds:
  assumes "0 < x"
  shows "2 powi \<lfloor>log 2 x\<rfloor> \<le> x \<and> x < 2 powi (\<lfloor>log 2 x\<rfloor> + 1)"
proof -
  have 1: "2 powr (real_of_int (\<lfloor>log 2 x\<rfloor> + 1)) = 2 powi (\<lfloor>log 2 x\<rfloor> + 1)"
    by (rule powr_real_of_int') simp_all
  have 2: "2 powr (real_of_int \<lfloor>log 2 x\<rfloor>) = 2 powi \<lfloor>log 2 x\<rfloor>"
    by (rule powr_real_of_int') simp_all
  show ?thesis
    using floor_log_eq_powr_iff[OF assms, of 2 "\<lfloor>log 2 x\<rfloor>"] 1 2 by simp
qed

lemma binary64_eval:
  assumes "2 powi k \<le> \<bar>x\<bar>" "\<bar>x\<bar> < 2 powi (k + 1)" "- 1022 \<le> k"
  shows "binary64 x = of_int (roundTiesToEven (x / 2 powi (k - 52))) * 2 powi (k - 52)"
proof -
  have "0 < (2 :: real) powi k" by simp
  then have "0 < \<bar>x\<bar>" using assms(1) by (rule less_le_trans)
  then have "x \<noteq> 0" by simp
  moreover have "\<lfloor>log 2 \<bar>x\<bar>\<rfloor> = k" using assms(1,2) by (rule floor_log2)
  ultimately show ?thesis using assms(3) by (simp add: binary64_def Let_def max_def)
qed

lemma binary64_nonneg: "0 \<le> x \<Longrightarrow> 0 \<le> binary64 x"
  using roundTiesToEven_ge[of 0] by (simp add: binary64_def Let_def)

lemma binary64_nonpos: "x \<le> 0 \<Longrightarrow> binary64 x \<le> 0"
proof -
  assume x: "x \<le> 0"
  define u :: real where "u = 2 powi (max (- 1022) \<lfloor>log 2 \<bar>x\<bar>\<rfloor> - 52)"
  have u: "0 < u" by (simp add: u_def)
  have "x / u \<le> of_int 0" using x u by (simp add: divide_le_0_iff)
  then have "roundTiesToEven (x / u) \<le> 0" by (rule roundTiesToEven_le)
  then have "of_int (roundTiesToEven (x / u)) * u \<le> 0"
    using u by (simp add: mult_le_0_iff)
  then show ?thesis by (simp add: binary64_def Let_def u_def)
qed

lemma binary64_double:
  assumes "\<bar>m\<bar> < 2 ^ 53" "- 1074 \<le> e"
  shows "binary64 (of_int m * 2 powi e) = of_int m * 2 powi e"
proof (cases "m = 0")
  case True
  then show ?thesis by (simp add: binary64_def)
next
  case False
  define x :: real where "x = of_int m * 2 powi e"
  have x0: "x \<noteq> 0" using False by (simp add: x_def)
  have ax: "\<bar>x\<bar> = of_int \<bar>m\<bar> * 2 powi e" by (simp add: x_def abs_mult)
  have "of_int \<bar>m\<bar> < (2 :: real) ^ 53" using assms(1) by (metis of_int_less_iff of_int_numeral of_int_power)
  then have "\<bar>x\<bar> < 2 ^ 53 * 2 powi e" unfolding ax by (simp)
  also have "\<dots> = 2 powi (e + 53)" by (simp add: power_int_add)
  finally have up: "\<bar>x\<bar> < 2 powi (e + 53)" .
  define L where "L = \<lfloor>log 2 \<bar>x\<bar>\<rfloor>"
  have "2 powi L \<le> \<bar>x\<bar>" using floor_log2_bounds[of "\<bar>x\<bar>"] x0 by (simp add: L_def)
  with up have "(2::real) powi L < 2 powi (e + 53)" by simp
  then have "L < e + 53"
    using power_int_increasing[of "e + 53" L "2 :: real"] by (cases "L < e + 53") simp_all
  define E where "E = max (- 1022) L"
  have E: "E \<le> e + 52" using \<open>L < e + 53\<close> assms(2) by (simp add: E_def)
  define k where "k = nat (e + 52 - E)"
  have k: "e = E - 52 + int k" using E by (simp add: k_def)
  have "x / 2 powi (E - 52) = of_int m * 2 powi (int k)"
    unfolding x_def k by (simp add: power_int_add)
  also have "\<dots> = of_int (m * 2 ^ k)" by simp
  finally have q: "x / 2 powi (E - 52) = of_int (m * 2 ^ k)" .
  have "binary64 x = of_int (roundTiesToEven (x / 2 powi (E - 52))) * 2 powi (E - 52)"
    using x0 by (simp add: binary64_def Let_def E_def L_def)
  also have "\<dots> = of_int (m * 2 ^ k) * 2 powi (E - 52)"
    by (simp only: q roundTiesToEven_of_int)
  also have "\<dots> = x" unfolding x_def k by (simp add: power_int_add)
  finally show ?thesis unfolding x_def .
qed

lemma binary64_of_int: "\<bar>n\<bar> < 2 ^ 53 \<Longrightarrow> binary64 (of_int n) = of_int n"
  using binary64_double[of n 0] by simp

lemma binary64_range:
  "\<exists>m e. \<bar>m\<bar> < 2 ^ 53 \<and> - 1074 \<le> e \<and> binary64 x = of_int m * 2 powi e"
proof (cases "x = 0")
  case True
  have "\<bar>0 :: int\<bar> < 2 ^ 53 \<and> - 1074 \<le> (0 :: int) \<and> binary64 x = of_int 0 * 2 powi 0"
    using True by (simp add: binary64_def)
  then show ?thesis by blast
next
  case False
  define L where "L = \<lfloor>log 2 \<bar>x\<bar>\<rfloor>"
  define E where "E = max (- 1022) L"
  define M where "M = roundTiesToEven (x / 2 powi (E - 52))"
  have b: "binary64 x = of_int M * 2 powi (E - 52)"
    using False by (simp add: binary64_def Let_def M_def E_def L_def)
  have "\<bar>x\<bar> < 2 powi (L + 1)" using floor_log2_bounds[of "\<bar>x\<bar>"] False by (simp add: L_def)
  also have "\<dots> \<le> 2 powi (E + 1)" by (rule power_int_increasing) (simp_all add: E_def)
  finally have "\<bar>x\<bar> < 2 powi (E + 1)" .
  then have "\<bar>x\<bar> / 2 powi (E - 52) < 2 powi (E + 1) / 2 powi (E - 52)"
    by (simp add: divide_strict_right_mono)
  also have "2 powi (E + 1) / 2 powi (E - 52) = (2 :: real) powi ((E + 1) - (E - 52))"
    by (rule power_int_diff[symmetric]) simp
  also have "\<dots> = 2 ^ 53" by simp
  finally have "\<bar>x\<bar> / 2 powi (E - 52) < 2 ^ 53" .
  moreover have "\<bar>x / 2 powi (E - 52)\<bar> = \<bar>x\<bar> / 2 powi (E - 52)"
    by (simp add: abs_divide)
  ultimately have q0: "\<bar>x / 2 powi (E - 52)\<bar> < 2 ^ 53" by (simp only:)
  define r where "r = x / 2 powi (E - 52)"
  have q: "\<bar>r\<bar> < 2 ^ 53" using q0 unfolding r_def .
  have Mr: "M = roundTiesToEven r" by (simp add: M_def r_def)
  have "r \<le> of_int (2 ^ 53)" using q by simp
  then have up: "M \<le> 2 ^ 53" unfolding Mr by (rule roundTiesToEven_le)
  have "of_int (- (2 ^ 53)) \<le> r" using q by simp
  then have lo: "- (2 ^ 53) \<le> M" unfolding Mr by (rule roundTiesToEven_ge)
  have E: "- 1022 \<le> E" by (simp add: E_def)
  show ?thesis
  proof (cases "\<bar>M\<bar> < 2 ^ 53")
    case True
    then have "\<bar>M\<bar> < 2 ^ 53 \<and> - 1074 \<le> E - 52 \<and> binary64 x = of_int M * 2 powi (E - 52)"
      using b E by simp
    then show ?thesis by blast
  next
    case False
    then have Mv: "M = 2 ^ 53 \<or> M = - (2 ^ 53)" using up lo by linarith
    then have "binary64 x = of_int (M div 2) * 2 powi (E - 51)"
    proof
      assume "M = 2 ^ 53"
      then have "binary64 x = 2 ^ 53 * 2 powi (E - 52)" "M div 2 = 2 ^ 52" using b by simp_all
      moreover have "(2 :: real) powi (E - 51) = 2 * 2 powi (E - 52)"
        using power_int_add[of "2 :: real" 1 "E - 52"] by simp
      ultimately show ?thesis by simp
    next
      assume "M = - (2 ^ 53)"
      then have "binary64 x = - (2 ^ 53) * 2 powi (E - 52)" "M div 2 = - (2 ^ 52)" using b by simp_all
      moreover have "(2 :: real) powi (E - 51) = 2 * 2 powi (E - 52)"
        using power_int_add[of "2 :: real" 1 "E - 52"] by simp
      ultimately show ?thesis by simp
    qed
    moreover have "\<bar>M div 2\<bar> < 2 ^ 53" using Mv by auto
    ultimately have "\<bar>M div 2\<bar> < 2 ^ 53 \<and> - 1074 \<le> E - 51 \<and> binary64 x = of_int (M div 2) * 2 powi (E - 51)"
      using E by simp
    then show ?thesis by blast
  qed
qed

lemma binary64_idem: "binary64 (binary64 x) = binary64 x"
  using binary64_range[of x] binary64_double by auto


section \<open>Shot planner: properties\<close>

text \<open>
  C3. For every settings record the shot plan has exactly three entries; their durations
  are a third of the total duration times 1.1, 0.9 and 1.2, in that order; the three sum
  to \<open>duration * (1.1 + 0.9 + 1.2) / 3\<close>, which is \<open>duration * 16/15\<close>, and so differ from
  the total duration whenever that is not zero.
\<close>

theorem buildShotPlan_durations:
  fixes s :: CinematicSettings
  defines "d \<equiv> CinematicSettings.duration s"
  shows "length (buildShotPlan lc gm gc s) = 3
       \<and> map ShotPlan.duration (buildShotPlan lc gm gc s)
           = [d / 3 * 1.1, d / 3 * 0.9, d / 3 * 1.2]
       \<and> sum_list (map ShotPlan.duration (buildShotPlan lc gm gc s))
           = d * (1.1 + 0.9 + 1.2) / 3
       \<and> sum_list (map ShotPlan.duration (buildShotPlan lc gm gc s)) = d * (16 / 15)
       \<and> (d \<noteq> 0 \<longrightarrow> sum_list (map ShotPlan.duration (buildShotPlan lc gm gc s)) \<noteq> d)"
  by (simp add: buildShotPlan_def d_def Let_def)

theorem buildShotPlan_durations_witness:
  "CinematicSettings.duration scenarioSettings \<noteq> 0
 \<and> length (buildShotPlan (\<lambda>x. x) (\<lambda>i. noir) (\<lambda>i. orbit) scenarioSettings) = 3
 \<and> map ShotPlan.duration (buildShotPlan (\<lambda>x. x) (\<lambda>i. noir) (\<lambda>i. orbit) scenarioSettings)
     = [2.2, 1.8, 2.4]
 \<and> sum_list (map ShotPlan.duration (buildShotPlan (\<lambda>x. x) (\<lambda>i. noir) (\<lambda>i. orbit) scenarioSettings))
     = 6.4
 \<and> sum_list (map ShotPlan.duration (buildShotPlan (\<lambda>x. x) (\<lambda>i. noir) (\<lambda>i. orbit) scenarioSettings))
     \<noteq> CinematicSettings.duration scenarioSettings"
  using buildShotPlan_durations [of "\<lambda>x. x" "\<lambda>i. noir" "\<lambda>i. orbit" scenarioSettings]
  by (simp add: scenarioSettings_def)

section \<open>Letterbox bars: properties\<close>



text \<open>
  On a frame of height 0 with a positive width and target ratio the quotient
  \<open>width / height\<close> is \<open>+Infinity\<close>, the thickness computed is not positive, and no bar is
  painted.
\<close>

lemma paintBars_height_zero:
  assumes "0 < w" and "0 < aspectRatio s"
  shows "paintBars w 0 s =
           [Save, SetGlobalAlpha 0.75, SetFillStyle (Colour (Css ''rgba(0,0,0,0.85)'')), Restore]"
proof -
  have "0 \<le> binary64 (w / aspectRatio s)"
    using assms by (intro binary64_nonneg) simp
  then have "sub64 0 (binary64 (w / aspectRatio s)) \<le> 0"
    unfolding sub64_def by (intro binary64_nonpos) simp
  then have "binary64 (sub64 0 (binary64 (w / aspectRatio s)) / 2) \<le> 0"
    by (intro binary64_nonpos) simp
  then show ?thesis
    using assms by (simp add: paintBars_def div64_def Let_def)
qed

section \<open>Background: properties\<close>

text \<open>
  A hexadecimal digit is no white space, sign or \<open>x\<close>, and its value lies between 0 and
  15; a colour written \<open>#rrggbb\<close> parses to its three bytes.
\<close>

lemma hexDigit_range:
  "hexDigit c = Some d \<Longrightarrow>
     0 \<le> d \<and> d \<le> 15 \<and> \<not> isWhiteSpace c
   \<and> c \<noteq> CHR ''-'' \<and> c \<noteq> CHR ''+'' \<and> c \<noteq> CHR ''x'' \<and> c \<noteq> CHR ''X''"
  by (auto simp: hexDigit_def Let_def isWhiteSpace_def split: if_splits)

lemma bytes_of_int:
  fixes x y z :: int
  assumes "0 \<le> x" "x < 256" "0 \<le> y" "y < 256" "0 \<le> z" "z < 256"
  shows "((x * 65536 + y * 256 + z) div 65536) mod 256 = x"
    and "((x * 65536 + y * 256 + z) div 256) mod 256 = y"
    and "(x * 65536 + y * 256 + z) mod 256 = z"
proof -
  have 1: "(x * 65536 + y * 256 + z) div 65536 = x"
    using assms by (simp add: div_pos_pos_trivial)
  have 2: "(x * 65536 + y * 256 + z) div 256 = x * 256 + y"
    using assms by (simp add: div_pos_pos_trivial)
  have 3: "x * 65536 + y * 256 + z = (x * 256 + y) * 256 + z" by simp
  show "((x * 65536 + y * 256 + z) div 65536) mod 256 = x" unfolding 1 using assms by simp
  show "((x * 65536 + y * 256 + z) div 256) mod 256 = y" unfolding 2 using assms by simp
  show "(x * 65536 + y * 256 + z) mod 256 = z"
    unfolding 3 mod_mult_self3 using assms by simp
qed

lemma hexToRgb_rrggbb:
  assumes "hexDigit c1 = Some d1" "hexDigit c2 = Some d2" "hexDigit c3 = Some d3"
          "hexDigit c4 = Some d4" "hexDigit c5 = Some d5" "hexDigit c6 = Some d6"
  shows "hexToRgb [CHR ''#'', c1, c2, c3, c4, c5, c6]
           = (16 * d1 + d2, 16 * d3 + d4, 16 * d5 + d6)"
proof -
  note r = assms[THEN hexDigit_range]
  define n where "n = (16 * d1 + d2) * 65536 + (16 * d3 + d4) * 256 + (16 * d5 + d6)"
  have hv: "hexValue 0 [c1, c2, c3, c4, c5, c6] = n"
    using assms by (simp add: n_def)
  have p: "parseInt16 [c1, c2, c3, c4, c5, c6] = Some (hexValue 0 [c1, c2, c3, c4, c5, c6])"
    using assms(1) r(1,2) by (simp add: parseInt16_def Let_def del: hexValue.simps)
  have b: "0 \<le> 16 * d1 + d2" "16 * d1 + d2 < 256" "0 \<le> 16 * d3 + d4" "16 * d3 + d4 < 256"
          "0 \<le> 16 * d5 + d6" "16 * d5 + d6 < 256"
    using r by simp_all
  have "\<bar>n\<bar> < 2 ^ 53" using b by (simp add: n_def)
  then have d: "\<lfloor>binary64 (of_int n)\<rfloor> = n" by (simp add: binary64_of_int)
  have "hexToRgb [CHR ''#'', c1, c2, c3, c4, c5, c6]
          = ((n div 2 ^ 16) mod 256, (n div 2 ^ 8) mod 256, n mod 256)"
    using p hv by (simp add: hexToRgb_def d Let_def del: hexValue.simps)
  moreover have "(n div 65536) mod 256 = 16 * d1 + d2"
    unfolding n_def by (rule bytes_of_int(1)[OF b])
  moreover have "(n div 256) mod 256 = 16 * d3 + d4"
    unfolding n_def by (rule bytes_of_int(2)[OF b])
  moreover have "n mod 256 = 16 * d5 + d6"
    unfolding n_def by (rule bytes_of_int(3)[OF b])
  ultimately show ?thesis by simp
qed

text \<open>
  Sixteen digits \<open>f\<close> denote \<open>2^64 - 1\<close>; the double nearest to it is \<open>2^64\<close>, whose low 32
  bits are zero.
\<close>

lemma hexToRgb_beyond_2_53: "hexToRgb ''#ffffffffffffffff'' = (0, 0, 0)"
proof -
  have p: "parseInt16 ''ffffffffffffffff'' = Some 18446744073709551615"
    by (simp add: parseInt16_def hexDigit_def isWhiteSpace_def)
  have "binary64 18446744073709551615 = 18446744073709551616"
    by (subst binary64_eval[of 63])
       (simp_all add: power_int_minus roundTiesToEven_def field_simps)
  then have d: "\<lfloor>binary64 18446744073709551615\<rfloor> = 18446744073709551616"
    by simp
  show ?thesis
    using p by (simp add: hexToRgb_def d Let_def)
qed

text \<open>
  C9. The background starts with a vertical linear gradient, from the top of the frame to
  its bottom, over the three palette colours of the mood. The first two are pulsed: each
  of their three bytes is multiplied by \<open>1 + sin (2 \<pi> time) * amplitude\<close>, rounded and kept
  within 0 and 255, with times \<open>0.1 * elapsed\<close> and \<open>0.12 * elapsed\<close> and amplitudes 0.04 and
  0.08, so the factors stay within 4% and 8% of 1 and reach those bounds; the bytes of a
  colour written \<open>#rrggbb\<close> are the values of its three pairs of digits. The third colour is
  not pulsed. The layer ends with the haze band, a rectangle in the flat haze colour over
  the full width, from 65% of the height down to the bottom edge, which is 35% of the
  height. The sine and \<open>\<pi>\<close> are the exact ones.
\<close>

theorem paintBackground_gradient_and_haze:
  "(\<exists>mid. paintBackground w h t m s =
       [SetFillStyle (Gradient (LinearGradient 0 0 0 h
          [(0, applyPulse (fst (palette m)) (t * 0.1) 0.04),
           (0.45, applyPulse (fst (snd (palette m))) (t * 0.12) 0.08),
           (1, Css (snd (snd (palette m))))])),
        FillRect 0 0 w h]
       @ mid
       @ [SetFillStyle (Colour (Css (haze m))), FillRect 0 (h * 0.65) w (h * 0.35)])
   \<and> h * 0.65 + h * 0.35 = h
   \<and> applyPulse c time a =
       Rgb (min 255 (max 0 (round (of_int (fst (hexToRgb c)) * (1 + sin (time * pi * 2) * a)))))
           (min 255 (max 0 (round (of_int (fst (snd (hexToRgb c))) * (1 + sin (time * pi * 2) * a)))))
           (min 255 (max 0 (round (of_int (snd (snd (hexToRgb c))) * (1 + sin (time * pi * 2) * a)))))
   \<and> (hexDigit c1 = Some d1 \<and> hexDigit c2 = Some d2 \<and> hexDigit c3 = Some d3
        \<and> hexDigit c4 = Some d4 \<and> hexDigit c5 = Some d5 \<and> hexDigit c6 = Some d6 \<longrightarrow>
          hexToRgb [CHR ''#'', c1, c2, c3, c4, c5, c6]
            = (16 * d1 + d2, 16 * d3 + d4, 16 * d5 + d6))
   \<and> map hexDigit ''09afAFg#'' = [Some 0, Some 9, Some 10, Some 15, Some 10, Some 15, None, None]
   \<and> hexToRgb ''#ff2d95'' = (255, 45, 149)
   \<and> applyPulse ''#ff2d95'' (1 / 4) 0.08 = Rgb 255 49 161
   \<and> applyPulse ''#ff2d95'' (3 / 4) 0.08 = Rgb 235 41 137
   \<and> pulseFactor time a = 1 + sin (time * pi * 2) * a
   \<and> 1 - 0.04 \<le> pulseFactor (t * 0.1) 0.04 \<and> pulseFactor (t * 0.1) 0.04 \<le> 1 + 0.04
   \<and> 1 - 0.08 \<le> pulseFactor (t * 0.12) 0.08 \<and> pulseFactor (t * 0.12) 0.08 \<le> 1 + 0.08
   \<and> pulseFactor (1 / 4) a = 1 + a \<and> pulseFactor (3 / 4) a = 1 - a"
proof -
  have layer: "\<exists>mid. paintBackground w h t m s =
       [SetFillStyle (Gradient (LinearGradient 0 0 0 h
          [(0, applyPulse (fst (palette m)) (t * 0.1) 0.04),
           (0.45, applyPulse (fst (snd (palette m))) (t * 0.12) 0.08),
           (1, Css (snd (snd (palette m))))])),
        FillRect 0 0 w h]
       @ mid
       @ [SetFillStyle (Colour (Css (haze m))), FillRect 0 (h * 0.65) w (h * 0.35)]"
    by (simp add: paintBackground_def Let_def split: prod.splits)
  have band: "h * 0.65 + h * 0.35 = h" by simp
  have apg: "applyPulse c' time' a' =
       Rgb (min 255 (max 0 (round (of_int (fst (hexToRgb c')) * (1 + sin (time' * pi * 2) * a')))))
           (min 255 (max 0 (round (of_int (fst (snd (hexToRgb c'))) * (1 + sin (time' * pi * 2) * a')))))
           (min 255 (max 0 (round (of_int (snd (snd (hexToRgb c'))) * (1 + sin (time' * pi * 2) * a')))))"
    for c' time' a'
    by (simp add: applyPulse_def clamp_def pulseFactor_def Let_def split: prod.splits)
  note ap = apg[of c time a]
  have hex: "hexDigit c1 = Some d1 \<and> hexDigit c2 = Some d2 \<and> hexDigit c3 = Some d3
        \<and> hexDigit c4 = Some d4 \<and> hexDigit c5 = Some d5 \<and> hexDigit c6 = Some d6 \<longrightarrow>
          hexToRgb [CHR ''#'', c1, c2, c3, c4, c5, c6]
            = (16 * d1 + d2, 16 * d3 + d4, 16 * d5 + d6)"
    using hexToRgb_rrggbb by blast
  have digits: "map hexDigit ''09afAFg#''
                  = [Some 0, Some 9, Some 10, Some 15, Some 10, Some 15, None, None]"
    by (simp add: hexDigit_def)
  have colour: "hexToRgb ''#ff2d95'' = (255, 45, 149)"
    using hexToRgb_rrggbb[of "CHR ''f''" 15 "CHR ''f''" 15 "CHR ''2''" 2 "CHR ''d''" 13
                             "CHR ''9''" 9 "CHR ''5''" 5]
    by (simp add: hexDigit_def)
  have pf: "pulseFactor time a = 1 + sin (time * pi * 2) * a" by (simp add: pulseFactor_def)
  have b: "1 - x \<le> pulseFactor y x \<and> pulseFactor y x \<le> 1 + x" if "0 \<le> x" for x y
  proof -
    have "\<bar>sin (y * pi * 2) * x\<bar> \<le> x"
      using that abs_sin_le_one[of "y * pi * 2"] by (simp add: abs_mult mult_left_le_one_le)
    then show ?thesis by (simp add: pulseFactor_def abs_le_iff)
  qed
  have b1: "1 - 0.04 \<le> pulseFactor (t * 0.1) 0.04 \<and> pulseFactor (t * 0.1) 0.04 \<le> 1 + 0.04"
    using b[of "0.04" "t * 0.1"] by simp
  have b2: "1 - 0.08 \<le> pulseFactor (t * 0.12) 0.08 \<and> pulseFactor (t * 0.12) 0.08 \<le> 1 + 0.08"
    using b[of "0.08" "t * 0.12"] by simp
  have 1: "1 / 4 * pi * 2 = pi / 2" by simp
  have 2: "3 / 4 * pi * 2 = 3 / 2 * pi" by simp
  have a1: "sin (1 / 4 * pi * 2) = 1" unfolding 1 by (rule sin_pi_half)
  have a2: "sin (3 / 4 * pi * 2) = - 1" unfolding 2 by (rule sin_3over2_pi)
  have pk: "pulseFactor (1 / 4) a = 1 + a \<and> pulseFactor (3 / 4) a = 1 - a"
    unfolding pulseFactor_def a1 a2 by simp
  have up: "applyPulse ''#ff2d95'' (1 / 4) 0.08 = Rgb 255 49 161"
    unfolding apg colour a1 by (simp add: round_def floor_eq_iff)
  have down: "applyPulse ''#ff2d95'' (3 / 4) 0.08 = Rgb 235 41 137"
    unfolding apg colour a2 by (simp add: round_def floor_eq_iff)
  note b1l = b1[THEN conjunct1] and b1u = b1[THEN conjunct2]
   and b2l = b2[THEN conjunct1] and b2u = b2[THEN conjunct2]
   and pk1 = pk[THEN conjunct1] and pk2 = pk[THEN conjunct2]
  from layer band ap hex digits colour up down pf b1l b1u b2l b2u pk1 pk2
  show ?thesis by (intro conjI)
qed

theorem paintBackground_gradient_and_haze_witness:
  "hexDigit (CHR ''1'') = Some 1 \<and> hexDigit (CHR ''2'') = Some 2 \<and> hexDigit (CHR ''0'') = Some 0
 \<and> hexDigit (CHR ''b'') = Some 11
 \<and> hexToRgb ''#12002b'' = (18, 0, 43)
 \<and> applyPulse ''#12002b'' (1 / 4) 0.04 = Rgb 19 0 45
 \<and> (\<exists>mid. paintBackground 1280 720 (5 / 2) neon scenarioSettings =
       [SetFillStyle (Gradient (LinearGradient 0 0 0 720
          [(0, Rgb 19 0 45),
           (0.45, applyPulse ''#ff2d95'' (5 / 2 * 0.12) 0.08),
           (1, Css ''#00e5ff'')])),
        FillRect 0 0 1280 720]
       @ mid
       @ [SetFillStyle (Colour (Css ''#12002b55'')), FillRect 0 468 1280 252])"
proof -
  have d: "hexDigit (CHR ''1'') = Some 1" "hexDigit (CHR ''2'') = Some 2"
          "hexDigit (CHR ''0'') = Some 0" "hexDigit (CHR ''b'') = Some 11"
    by (simp_all add: hexDigit_def)
  note t = paintBackground_gradient_and_haze
             [where w = 1280 and h = 720 and t = "5 / 2" and m = neon and s = scenarioSettings
                and c = "''#12002b''" and time = "1 / 4" and a = "0.04"
                and ?c1.0 = "CHR ''1''" and ?d1.0 = 1 and ?c2.0 = "CHR ''2''" and ?d2.0 = 2
                and ?c3.0 = "CHR ''0''" and ?d3.0 = 0 and ?c4.0 = "CHR ''0''" and ?d4.0 = 0
                and ?c5.0 = "CHR ''2''" and ?d5.0 = 2 and ?c6.0 = "CHR ''b''" and ?d6.0 = 11]
  note layerT = t[THEN conjunct1]
   and apT = t[THEN conjunct2, THEN conjunct2, THEN conjunct1]
   and hexT = t[THEN conjunct2, THEN conjunct2, THEN conjunct2, THEN conjunct1]
  have hex: "hexToRgb ''#12002b'' = (18, 0, 43)"
    using hexT d by simp
  have "1 / 4 * pi * 2 = pi / 2" by simp
  then have s: "sin (1 / 4 * pi * 2) = 1" by (simp only: sin_pi_half)
  have "applyPulse ''#12002b'' (1 / 4) 0.04 =
       Rgb (min 255 (max 0 (round (of_int (fst (hexToRgb ''#12002b'')) * (1 + sin (1 / 4 * pi * 2) * 0.04)))))
           (min 255 (max 0 (round (of_int (fst (snd (hexToRgb ''#12002b''))) * (1 + sin (1 / 4 * pi * 2) * 0.04)))))
           (min 255 (max 0 (round (of_int (snd (snd (hexToRgb ''#12002b''))) * (1 + sin (1 / 4 * pi * 2) * 0.04)))))"
    by (rule apT)
  then have ap: "applyPulse ''#12002b'' (1 / 4) 0.04 = Rgb 19 0 45"
    unfolding hex s by (simp add: round_def floor_eq_iff)
  have "\<exists>mid. paintBackground 1280 720 (5 / 2) neon scenarioSettings =
       [SetFillStyle (Gradient (LinearGradient 0 0 0 720
          [(0, applyPulse (fst (palette neon)) (5 / 2 * 0.1) 0.04),
           (0.45, applyPulse (fst (snd (palette neon))) (5 / 2 * 0.12) 0.08),
           (1, Css (snd (snd (palette neon))))])),
        FillRect 0 0 1280 720]
       @ mid
       @ [SetFillStyle (Colour (Css (haze neon))), FillRect 0 (720 * 0.65) 1280 (720 * 0.35)]"
    by (rule layerT)
  then obtain mid where mid: "paintBackground 1280 720 (5 / 2) neon scenarioSettings =
       [SetFillStyle (Gradient (LinearGradient 0 0 0 720
          [(0, applyPulse (fst (palette neon)) (5 / 2 * 0.1) 0.04),
           (0.45, applyPulse (fst (snd (palette neon))) (5 / 2 * 0.12) 0.08),
           (1, Css (snd (snd (palette neon))))])),
        FillRect 0 0 1280 720]
       @ mid
       @ [SetFillStyle (Colour (Css (haze neon))), FillRect 0 (720 * 0.65) 1280 (720 * 0.35)]" ..
  have e: "fst (palette neon) = ''#12002b''" "fst (snd (palette neon)) = ''#ff2d95''"
          "snd (snd (palette neon)) = ''#00e5ff''" "haze neon = ''#12002b55''"
    by (simp_all add: neon_def)
  have q: "(5 / 2 * 0.1 :: real) = 1 / 4" "(720 * 0.65 :: real) = 468" "(720 * 0.35 :: real) = 252"
    by simp_all
  note mid' = mid[unfolded e q ap]
  have layer: "\<exists>mid. paintBackground 1280 720 (5 / 2) neon scenarioSettings =
       [SetFillStyle (Gradient (LinearGradient 0 0 0 720
          [(0, Rgb 19 0 45),
           (0.45, applyPulse ''#ff2d95'' (5 / 2 * 0.12) 0.08),
           (1, Css ''#00e5ff'')])),
        FillRect 0 0 1280 720]
       @ mid
       @ [SetFillStyle (Colour (Css ''#12002b55'')), FillRect 0 468 1280 252]"
    by (rule exI[of _ mid]) (rule mid')
  from d hex ap layer show ?thesis by (intro conjI)
qed

section \<open>Particles: properties\<close>

text \<open>
  C10. In a generated particle array the axis of the particle at index \<open>i\<close> is 1 when \<open>i\<close> is
  even and -1 when it is odd, whatever the random stream and however many draws were made
  before; the five other fields are each computed from their own random draw, and two
  streams give the same value of such a field exactly when they agree on that draw.
\<close>

theorem particle_axis_alternates:
  assumes "i < length (newParticles rnd k n)"
  shows "axis (newParticles rnd k n ! i) = (if even i then 1 else - 1)
       \<and> axis (newParticles rnd k n ! i) \<in> {- 1, 1}
       \<and> axis (newParticles rnd' k' n ! i) = axis (newParticles rnd k n ! i)
       \<and> baseX (newParticles rnd k n ! i) = rnd (k + 5 * i)
       \<and> baseY (newParticles rnd k n ! i) = rnd (k + 5 * i + 1)
       \<and> amplitude (newParticles rnd k n ! i) = 0.05 + rnd (k + 5 * i + 2) * 0.35
       \<and> speed (newParticles rnd k n ! i) = 0.6 + rnd (k + 5 * i + 3) * 1.2
       \<and> radius (newParticles rnd k n ! i) = 0.6 + rnd (k + 5 * i + 4) * 1.9
       \<and> (baseX (newParticles rnd' k n ! i) = baseX (newParticles rnd k n ! i))
           = (rnd' (k + 5 * i) = rnd (k + 5 * i))
       \<and> (baseY (newParticles rnd' k n ! i) = baseY (newParticles rnd k n ! i))
           = (rnd' (k + 5 * i + 1) = rnd (k + 5 * i + 1))
       \<and> (amplitude (newParticles rnd' k n ! i) = amplitude (newParticles rnd k n ! i))
           = (rnd' (k + 5 * i + 2) = rnd (k + 5 * i + 2))
       \<and> (speed (newParticles rnd' k n ! i) = speed (newParticles rnd k n ! i))
           = (rnd' (k + 5 * i + 3) = rnd (k + 5 * i + 3))
       \<and> (radius (newParticles rnd' k n ! i) = radius (newParticles rnd k n ! i))
           = (rnd' (k + 5 * i + 4) = rnd (k + 5 * i + 4))"
proof -
  have i: "i < nat n" using assms by (simp add: newParticles_def)
  then have "newParticles rnd k n ! i = newParticle rnd (k + 5 * i) i"
        and "newParticles rnd' k' n ! i = newParticle rnd' (k' + 5 * i) i"
        and "newParticles rnd' k n ! i = newParticle rnd' (k + 5 * i) i"
    by (simp_all add: newParticles_def)
  then show ?thesis
    by (simp add: newParticle_def even_iff_mod_2_eq_zero)
qed

theorem particle_axis_alternates_witness:
  "1 < length (newParticles (\<lambda>j. real j / 100) 0 3)
 \<and> axis (newParticles (\<lambda>j. real j / 100) 0 3 ! 1) = - 1
 \<and> axis (newParticles (\<lambda>j. 0) 7 3 ! 1) = axis (newParticles (\<lambda>j. real j / 100) 0 3 ! 1)
 \<and> baseX (newParticles (\<lambda>j. real j / 100) 0 3 ! 1) = 5 / 100
 \<and> baseX (newParticles (\<lambda>j. 0) 0 3 ! 1) \<noteq> baseX (newParticles (\<lambda>j. real j / 100) 0 3 ! 1)"
proof -
  have l: "1 < length (newParticles (\<lambda>j. real j / 100) 0 3)"
    by (simp add: newParticles_def)
  show ?thesis
    using particle_axis_alternates [OF l, of "\<lambda>j. 0" 7] l by simp
qed

text \<open>
  The closure values of a session are the same after a frame, and the frame is painted from
  them and the elapsed seconds.
\<close>

lemma generateGrain_closure:
  "width (generateGrain rnd st) = width st \<and> height (generateGrain rnd st) = height st
 \<and> effectiveSettings (generateGrain rnd st) = effectiveSettings st
 \<and> mood (generateGrain rnd st) = mood st \<and> startTime (generateGrain rnd st) = startTime st
 \<and> particles (generateGrain rnd st) = particles st"
  by (simp add: generateGrain_def)

lemma renderFrame_closure:
  assumes "renderFrame cp rnd st tick = (ops, st1)"
  shows "width st1 = width st \<and> height st1 = height st
       \<and> effectiveSettings st1 = effectiveSettings st \<and> mood st1 = mood st
       \<and> startTime st1 = startTime st \<and> particles st1 = particles st
       \<and> (\<exists>g. ops = drawFrame cp (width st) (height st) ((fst tick - startTime st) / 1000)
                      (effectiveSettings st) (mood st) (particles st) g)"
  using assms generateGrain_closure[of rnd st]
  by (cases tick) (auto simp: renderFrame_def Let_def)

lemma renderFrames_closure:
  "renderFrames cp rnd st ticks = (frames, st2) \<Longrightarrow>
     particles st2 = particles st
   \<and> list_all2 (\<lambda>tick ops. \<exists>g. ops = drawFrame cp (width st) (height st)
                    ((fst tick - startTime st) / 1000) (effectiveSettings st) (mood st)
                    (particles st) g) ticks frames"
proof (induction ticks arbitrary: st frames st2)
  case Nil
  then show ?case by simp
next
  case (Cons tick ticks)
  obtain ops st1 where 1: "renderFrame cp rnd st tick = (ops, st1)"
    by (cases "renderFrame cp rnd st tick")
  obtain fs st3 where 2: "renderFrames cp rnd st1 ticks = (fs, st3)"
    by (cases "renderFrames cp rnd st1 ticks")
  from Cons.prems 1 2 have 3: "frames = ops # fs" "st2 = st3" by simp_all
  note c = renderFrame_closure[OF 1]
  from Cons.IH[OF 2] c show ?case using 3 by simp
qed

lemma startSession_particles:
  assumes "startSession gr gm rnd cv cx gc t0 k h s = Some st"
  shows "particles st = newParticles rnd k (particleCount s) \<and> effectiveSettings st = s"
  using assms generateGrain_closure
  by (auto simp: startSession_def Let_def split: if_splits prod.splits)

text \<open>
  The particle count at two settings: 120 at a parallax of one half, and 61 at the double
  nearest to 0.0125, where the exact value of \<open>120 * (parallax + 0.5)\<close> lies just above
  61.5 and the product the source computes just below.
\<close>

lemma particleCount_scenario: "particleCount scenarioSettings = 120"
proof -
  have 1: "binary64 1 = 1" using binary64_double[of 1 0] by simp
  have 2: "binary64 120 = 120" using binary64_double[of 120 0] by simp
  show ?thesis
    by (simp add: particleCount_def scenarioSettings_def add64_def mul64_def 1 2)
qed

lemma particleCount_rounds_the_double:
  "round (mul64 120 (add64 parallaxNearEightieth 0.5)) = 61
 \<and> round (120 * (parallaxNearEightieth + 0.5)) = 62"
proof -
  have 1: "add64 (3602879701896397 / 2 ^ 58) 0.5 = 2308094809027379 / 2 ^ 52"
    unfolding add64_def
    by (subst binary64_eval[of "- 1"])
       (simp_all add: power_int_minus roundTiesToEven_def field_simps)
  have 2: "mul64 120 (2308094809027379 / 2 ^ 52) = 8655355533852671 / 2 ^ 47"
    unfolding mul64_def
    by (subst binary64_eval[of 5])
       (simp_all add: power_int_minus roundTiesToEven_def field_simps)
  have 3: "round (8655355533852671 / 2 ^ 47 :: real) = 61"
    by (simp add: round_def floor_eq_iff)
  have "round (mul64 120 (add64 parallaxNearEightieth 0.5)) = 61"
    unfolding parallaxNearEightieth_def 1 2 3 by (rule refl)
  moreover have "round (120 * (parallaxNearEightieth + 0.5)) = 62"
    unfolding parallaxNearEightieth_def by (simp add: round_def floor_eq_iff)
  ultimately show ?thesis by (rule conjI)
qed

text \<open>
  With the canvas and its context there, the session starts unless the particle count is
  above \<open>2^32 - 1\<close>.
\<close>

lemma startSession_starts:
  "(startSession gr gm rnd True True gc t0 k h s \<noteq> None) = (particleCount s \<le> 4294967295)"
  by (auto simp: startSession_def Let_def split: prod.splits)

text \<open>
  C4. A session started with a parallax that is not negative holds
  \<open>round (120 * (parallax + 0.5))\<close> particles, the sum and the product being the ones the
  source computes, each rounded to the nearest double: at the double nearest to 0.0125
  that is 61 particles. The particles are generated when the session starts; after any
  number of frames the session holds the same particle list, field for field, and every
  frame is painted from that list and the seconds elapsed since the start.
\<close>

theorem particles_fixed_for_session:
  assumes "startSession gr gm rnd cv cx gc t0 k h s = Some st"
      and "0 \<le> parallax s"
      and "renderFrames cp rnd st ticks = (frames, st')"
  shows "int (length (particles st)) = round (mul64 120 (add64 (parallax s) 0.5))
       \<and> (parallax s = parallaxNearEightieth \<longrightarrow> length (particles st) = 61)
       \<and> particles st = newParticles rnd k (round (mul64 120 (add64 (parallax s) 0.5)))
       \<and> particles st' = particles st
       \<and> length frames = length ticks
       \<and> (\<forall>n < length ticks. \<exists>g.
            frames ! n = drawFrame cp (width st) (height st) ((fst (ticks ! n) - startTime st) / 1000)
                           s (mood st) (particles st) g)"
proof -
  note sp = startSession_particles[OF assms(1)]
  have "0 \<le> add64 (parallax s) 0.5"
    unfolding add64_def using assms(2) by (intro binary64_nonneg) simp
  then have "0 \<le> mul64 120 (add64 (parallax s) 0.5)"
    unfolding mul64_def by (intro binary64_nonneg) simp
  then have nonneg: "0 \<le> round (mul64 120 (add64 (parallax s) 0.5))"
    by (simp add: round_def)
  have len: "int (length (particles st)) = round (mul64 120 (add64 (parallax s) 0.5))"
    using sp nonneg by (simp add: newParticles_def particleCount_def)
  have near: "parallax s = parallaxNearEightieth \<longrightarrow> length (particles st) = 61"
  proof
    assume "parallax s = parallaxNearEightieth"
    then have "int (length (particles st)) = 61"
      using len particleCount_rounds_the_double by simp
    then show "length (particles st) = 61" by simp
  qed
  note rc = renderFrames_closure[OF assms(3)]
  have ll: "length frames = length ticks"
    using rc list_all2_lengthD by fastforce
  have frames: "\<forall>n < length ticks. \<exists>g.
            frames ! n = drawFrame cp (width st) (height st) ((fst (ticks ! n) - startTime st) / 1000)
                           s (mood st) (particles st) g"
    using rc sp by (simp add: list_all2_conv_all_nth)
  show ?thesis using len near sp rc frames ll by (simp add: particleCount_def)
qed

theorem particles_fixed_for_session_witness:
  "(\<exists>st. startSession (\<lambda>preset aspect. (1280, 720)) (\<lambda>i. noir) (\<lambda>j. 1 / 2) True True False 0 0 1
            scenarioSettings = Some st
      \<and> 0 \<le> parallax scenarioSettings
      \<and> int (length (particles st)) = 120
      \<and> particles (snd (renderFrames (\<lambda>tile rep. None) (\<lambda>j. 1 / 2) st [(16, 2), (33, 3)]))
          = particles st)
 \<and> (\<exists>st. startSession (\<lambda>preset aspect. (1280, 720)) (\<lambda>i. noir) (\<lambda>j. 1 / 2) True True False 0 0 1
            (scenarioSettings\<lparr>parallax := parallaxNearEightieth\<rparr>) = Some st
      \<and> 0 \<le> parallax (scenarioSettings\<lparr>parallax := parallaxNearEightieth\<rparr>)
      \<and> length (particles st) = 61)"
proof -
  obtain st where st: "startSession (\<lambda>preset aspect. (1280, 720)) (\<lambda>i. noir) (\<lambda>j. 1 / 2) True True False 0 0 1
            scenarioSettings = Some st"
    by (simp add: startSession_def Let_def particleCount_scenario)
  have p: "0 \<le> parallax scenarioSettings" by (simp add: scenarioSettings_def)
  have r: "renderFrames (\<lambda>tile rep. None) (\<lambda>j. 1 / 2) st [(16, 2), (33, 3)]
           = (fst (renderFrames (\<lambda>tile rep. None) (\<lambda>j. 1 / 2) st [(16, 2), (33, 3)]),
              snd (renderFrames (\<lambda>tile rep. None) (\<lambda>j. 1 / 2) st [(16, 2), (33, 3)]))"
    by simp
  have "round (mul64 120 (add64 (parallax scenarioSettings) 0.5)) = 120"
    using particleCount_scenario by (simp add: particleCount_def)
  then have one: "\<exists>st. startSession (\<lambda>preset aspect. (1280, 720)) (\<lambda>i. noir) (\<lambda>j. 1 / 2) True True False 0 0 1
            scenarioSettings = Some st
      \<and> 0 \<le> parallax scenarioSettings
      \<and> int (length (particles st)) = 120
      \<and> particles (snd (renderFrames (\<lambda>tile rep. None) (\<lambda>j. 1 / 2) st [(16, 2), (33, 3)]))
          = particles st"
    using particles_fixed_for_session [OF st p r] st p by auto
  let ?s = "scenarioSettings\<lparr>parallax := parallaxNearEightieth\<rparr>"
  have c: "particleCount ?s = 61"
    using particleCount_rounds_the_double by (simp add: particleCount_def)
  obtain st2 where st2: "startSession (\<lambda>preset aspect. (1280, 720)) (\<lambda>i. noir) (\<lambda>j. 1 / 2) True True False 0 0 1
            ?s = Some st2"
    using startSession_starts[of "\<lambda>preset aspect. (1280, 720)" "\<lambda>i. noir" "\<lambda>j. 1 / 2" False 0 0 1 ?s] c
    by auto
  have p2: "0 \<le> parallax ?s" by (simp add: parallaxNearEightieth_def)
  have r2: "renderFrames (\<lambda>tile rep. None) (\<lambda>j. 1 / 2) st2 [] = ([], st2)" by simp
  have "length (particles st2) = 61"
    using particles_fixed_for_session [OF st2 p2 r2, THEN conjunct2, THEN conjunct1] by simp
  then have two: "\<exists>st. startSession (\<lambda>preset aspect. (1280, 720)) (\<lambda>i. noir) (\<lambda>j. 1 / 2) True True False 0 0 1
            ?s = Some st
      \<and> 0 \<le> parallax ?s
      \<and> length (particles st) = 61"
    using st2 p2 by (intro exI[of _ st2] conjI)
  from one two show ?thesis by (rule conjI)
qed

section \<open>Catalogue lookup: properties\<close>

lemma find_id:
  "find P xs = Some x \<Longrightarrow> x \<in> set xs \<and> P x"
  by (induction xs) (auto split: if_splits)

lemma find_distinct_id:
  "distinct (map f xs) \<Longrightarrow> x \<in> set xs \<Longrightarrow> find (\<lambda>y. f y = f x) xs = Some x"
  by (induction xs) (auto simp: image_iff)

lemma find_absent: "i \<notin> f ` set xs \<Longrightarrow> find (\<lambda>y. f y = i) xs = None"
  by (induction xs) auto

lemma find_present: "x \<in> set xs \<Longrightarrow> \<exists>y. find (\<lambda>y. f y = f x) xs = Some y"
  by (induction xs) auto

text \<open>
  C6. The canvas resolves each of the camera-motion ids \<open>dolly\<close>, \<open>drift\<close>, \<open>pulse\<close> and \<open>orbit\<close>
  to its own offset function and speed multiplier, and every other id to those of \<open>orbit\<close>,
  the default. In the catalogue tables an id that is present resolves to an entry of the
  table with that id (the entry itself when the ids of the table are distinct), and an id
  that is absent resolves to the default entry. No lookup has a failing branch.
\<close>

theorem catalogue_lookup_total:
  "getCameraMotionOffset ''dolly'' e a = (sin (e * 0.4) * 420 * a, cos (e * 0.25) * 280)
 \<and> getCameraMotionOffset ''drift'' e a = (sin (e * 0.6 + a) * 320, sin (e * 0.35 + a) * 220)
 \<and> getCameraMotionOffset ''pulse'' e a = (sin (e * 3) * 65, cos (e * 1.5) * 45)
 \<and> getCameraMotionOffset ''orbit'' e a = (cos (e * 0.35) * 380, sin (e * 0.3) * 200)
 \<and> getCameraSpeedMultiplier ''dolly'' = 1.4
 \<and> getCameraSpeedMultiplier ''drift'' = 0.9
 \<and> getCameraSpeedMultiplier ''pulse'' = 1.8
 \<and> getCameraSpeedMultiplier ''orbit'' = 1
 \<and> (i \<notin> {''dolly'', ''drift'', ''pulse'', ''orbit''} \<longrightarrow>
        getCameraMotionOffset i e a = getCameraMotionOffset ''orbit'' e a
      \<and> getCameraSpeedMultiplier i = getCameraSpeedMultiplier ''orbit'')
 \<and> (\<forall>m \<in> set moods. \<exists>m' \<in> set moods. getMood moods dm (Mood.id m) = m' \<and> Mood.id m' = Mood.id m)
 \<and> (distinct (map Mood.id moods) \<longrightarrow> (\<forall>m \<in> set moods. getMood moods dm (Mood.id m) = m))
 \<and> (i \<notin> Mood.id ` set moods \<longrightarrow> getMood moods dm i = dm)
 \<and> (\<forall>c \<in> set cams. \<exists>c' \<in> set cams. getCameraMotion cams dc (CameraMotion.id c) = c'
        \<and> CameraMotion.id c' = CameraMotion.id c)
 \<and> (distinct (map CameraMotion.id cams) \<longrightarrow>
        (\<forall>c \<in> set cams. getCameraMotion cams dc (CameraMotion.id c) = c))
 \<and> (i \<notin> CameraMotion.id ` set cams \<longrightarrow> getCameraMotion cams dc i = dc)"
proof -
  have offs: "getCameraMotionOffset ''dolly'' e a = (sin (e * 0.4) * 420 * a, cos (e * 0.25) * 280)
     \<and> getCameraMotionOffset ''drift'' e a = (sin (e * 0.6 + a) * 320, sin (e * 0.35 + a) * 220)
     \<and> getCameraMotionOffset ''pulse'' e a = (sin (e * 3) * 65, cos (e * 1.5) * 45)
     \<and> getCameraMotionOffset ''orbit'' e a = (cos (e * 0.35) * 380, sin (e * 0.3) * 200)"
    by (simp add: getCameraMotionOffset_def)
  have mult: "getCameraSpeedMultiplier ''dolly'' = 1.4
     \<and> getCameraSpeedMultiplier ''drift'' = 0.9
     \<and> getCameraSpeedMultiplier ''pulse'' = 1.8
     \<and> getCameraSpeedMultiplier ''orbit'' = 1"
    by (simp add: getCameraSpeedMultiplier_def)
  have dflt: "i \<notin> {''dolly'', ''drift'', ''pulse'', ''orbit''} \<longrightarrow>
        getCameraMotionOffset i e a = getCameraMotionOffset ''orbit'' e a
      \<and> getCameraSpeedMultiplier i = getCameraSpeedMultiplier ''orbit''"
    by (simp add: getCameraMotionOffset_def getCameraSpeedMultiplier_def)
  have m1: "\<forall>m \<in> set moods. \<exists>m' \<in> set moods. getMood moods dm (Mood.id m) = m' \<and> Mood.id m' = Mood.id m"
  proof
    fix m assume "m \<in> set moods"
    then obtain y where y: "find (\<lambda>y. Mood.id y = Mood.id m) moods = Some y"
      using find_present[of m moods Mood.id] by blast
    then have "y \<in> set moods \<and> Mood.id y = Mood.id m" by (rule find_id)
    then show "\<exists>m' \<in> set moods. getMood moods dm (Mood.id m) = m' \<and> Mood.id m' = Mood.id m"
      using y by (simp add: getMood_def)
  qed
  have m2: "distinct (map Mood.id moods) \<longrightarrow> (\<forall>m \<in> set moods. getMood moods dm (Mood.id m) = m)"
    by (simp add: getMood_def find_distinct_id)
  have m3: "i \<notin> Mood.id ` set moods \<longrightarrow> getMood moods dm i = dm"
    by (simp add: getMood_def find_absent)
  have c1: "\<forall>c \<in> set cams. \<exists>c' \<in> set cams. getCameraMotion cams dc (CameraMotion.id c) = c'
        \<and> CameraMotion.id c' = CameraMotion.id c"
  proof
    fix c assume "c \<in> set cams"
    then obtain y where y: "find (\<lambda>y. CameraMotion.id y = CameraMotion.id c) cams = Some y"
      using find_present[of c cams CameraMotion.id] by blast
    then have "y \<in> set cams \<and> CameraMotion.id y = CameraMotion.id c" by (rule find_id)
    then show "\<exists>c' \<in> set cams. getCameraMotion cams dc (CameraMotion.id c) = c'
        \<and> CameraMotion.id c' = CameraMotion.id c"
      using y by (simp add: getCameraMotion_def)
  qed
  have c2: "distinct (map CameraMotion.id cams) \<longrightarrow>
        (\<forall>c \<in> set cams. getCameraMotion cams dc (CameraMotion.id c) = c)"
    by (simp add: getCameraMotion_def find_distinct_id)
  have c3: "i \<notin> CameraMotion.id ` set cams \<longrightarrow> getCameraMotion cams dc i = dc"
    by (simp add: getCameraMotion_def find_absent)
  from offs mult dflt m1 m2 m3 c1 c2 c3 show ?thesis by blast
qed

theorem catalogue_lookup_total_witness:
  "''zoom'' \<notin> {''dolly'', ''drift'', ''pulse'', ''orbit''}
 \<and> getCameraMotionOffset ''zoom'' 0 1 = (380, 0)
 \<and> getCameraSpeedMultiplier ''zoom'' = 1
 \<and> neon \<in> set [noir, neon]
 \<and> distinct (map Mood.id [noir, neon])
 \<and> getMood [noir, neon] noir (Mood.id neon) = neon
 \<and> ''sepia'' \<notin> Mood.id ` set [noir, neon]
 \<and> getMood [noir, neon] noir ''sepia'' = noir
 \<and> dolly \<in> set [orbit, dolly]
 \<and> distinct (map CameraMotion.id [orbit, dolly])
 \<and> getCameraMotion [orbit, dolly] orbit (CameraMotion.id dolly) = dolly
 \<and> ''zoom'' \<notin> CameraMotion.id ` set [orbit, dolly]
 \<and> getCameraMotion [orbit, dolly] orbit ''zoom'' = orbit"
proof -
  have a: "''zoom'' \<notin> {''dolly'', ''drift'', ''pulse'', ''orbit''}" by simp
  have b: "neon \<in> set [noir, neon]" by simp
  have c: "distinct (map Mood.id [noir, neon])" by (simp add: noir_def neon_def)
  have d: "''sepia'' \<notin> Mood.id ` set [noir, neon]" by (simp add: noir_def neon_def)
  have f: "dolly \<in> set [orbit, dolly]" by simp
  have g: "distinct (map CameraMotion.id [orbit, dolly])" by (simp add: orbit_def dolly_def)
  have h: "''zoom'' \<notin> CameraMotion.id ` set [orbit, dolly]" by (simp add: orbit_def dolly_def)
  note t1 = catalogue_lookup_total [of 0 1 "''zoom''" "[noir, neon]" noir "[orbit, dolly]" orbit]
  note t2 = catalogue_lookup_total [of 0 1 "''sepia''" "[noir, neon]" noir "[orbit, dolly]" orbit]
  have "getCameraMotionOffset ''zoom'' 0 1 = (380, 0)" using t1 a by simp
  moreover have "getCameraSpeedMultiplier ''zoom'' = 1" using t1 a by simp
  moreover have "getMood [noir, neon] noir (Mood.id neon) = neon" using t1 b c by blast
  moreover have "getMood [noir, neon] noir ''sepia'' = noir" using t2 d by blast
  moreover have "getCameraMotion [orbit, dolly] orbit (CameraMotion.id dolly) = dolly"
    using t1 f g by blast
  moreover have "getCameraMotion [orbit, dolly] orbit ''zoom'' = orbit" using t1 h by blast
  ultimately show ?thesis using a b c d f g h by blast
qed

section \<open>Capture session: properties\<close>

lemma progressReports_append:
  "progressReports (xs @ ys) = progressReports xs @ progressReports ys"
  by (induction xs rule: progressReports.induct) simp_all

lemma ticksOf_append: "ticksOf (xs @ ys) = ticksOf xs @ ticksOf ys"
  by (induction xs rule: ticksOf.induct) simp_all

text \<open>
  When the promise is settled the wait is over at once; a pending promise is settled by
  \<open>stop\<close> and \<open>error\<close> and by no other event, and a settled one stays as it is. So the events
  handled during the wait are those up to the first that settles the promise.
\<close>

lemma awaitStop_settled:
  "p \<noteq> Pending \<Longrightarrow> awaitStop st tot es (s, blobs, p) = (s, blobs, p)"
  by (cases es) simp_all

lemma handleEvent_promise:
  "snd (snd (handleEvent st tot e (s, blobs, p)))
     = (if p \<noteq> Pending then p
        else case e of
               Stop \<Rightarrow> Resolved (nextUrl s)
             | ErrorEvent x \<Rightarrow>
                 Rejected (case x of
                             Some y \<Rightarrow> y
                           | None \<Rightarrow> ErrorObject (''Erreur inconnue pendant l''
                                        @ [CHR 0xE2, CHR 0x80, CHR 0x99] @ ''enregistrement.''))
             | _ \<Rightarrow> Pending)"
  by (cases e) (auto simp: createObjectURL_def Let_def split: option.splits)

lemma handleEvent_pending:
  "(snd (snd (handleEvent st tot e (s, blobs, Pending))) = Pending) = (\<not> settles e)"
  by (cases e) (auto simp: createObjectURL_def Let_def split: option.splits)

lemma awaitStop_foldl:
  "awaitStop st tot es (s, blobs, Pending)
     = foldl (\<lambda>acc e. handleEvent st tot e acc) (s, blobs, Pending) (untilSettled es)"
proof (induction es arbitrary: s blobs)
  case Nil
  show ?case by simp
next
  case (Cons e es)
  obtain s' blobs' p' where h: "handleEvent st tot e (s, blobs, Pending) = (s', blobs', p')"
    by (cases "handleEvent st tot e (s, blobs, Pending)")
  have p: "(p' = Pending) = (\<not> settles e)"
    using handleEvent_pending[of st tot e s blobs] h by simp
  show ?case
  proof (cases "settles e")
    case True
    then have "p' \<noteq> Pending" using p by simp
    then show ?thesis using True h by (simp add: awaitStop_settled)
  next
    case False
    then have "p' = Pending" using p by simp
    then show ?thesis using False h Cons.IH[of s' blobs'] by simp
  qed
qed

lemma foldl_settled:
  "p \<noteq> Pending \<Longrightarrow>
     snd (snd (foldl (\<lambda>acc e. handleEvent st tot e acc) (s, blobs, p) es)) = p"
proof (induction es arbitrary: s blobs)
  case Nil
  show ?case by simp
next
  case (Cons e es)
  obtain s' blobs' p' where h: "handleEvent st tot e (s, blobs, p) = (s', blobs', p')"
    by (cases "handleEvent st tot e (s, blobs, p)")
  have "p' = p" using handleEvent_promise[of st tot e s blobs p] h Cons.prems by simp
  then show ?case using h Cons.IH[of s' blobs'] Cons.prems by simp
qed

lemma foldl_promise:
  "(snd (snd (foldl (\<lambda>acc e. handleEvent st tot e acc) (s, blobs, Pending) es)) = Pending)
     = (find settles es = None)
 \<and> (\<exists>u. snd (snd (foldl (\<lambda>acc e. handleEvent st tot e acc) (s, blobs, Pending) es)) = Resolved u)
     = (find settles es = Some Stop)"
proof (induction es arbitrary: s blobs)
  case Nil
  show ?case by simp
next
  case (Cons e es)
  obtain s' blobs' p' where h: "handleEvent st tot e (s, blobs, Pending) = (s', blobs', p')"
    by (cases "handleEvent st tot e (s, blobs, Pending)")
  show ?case
  proof (cases "settles e")
    case True
    have p': "p' \<noteq> Pending" using handleEvent_pending[of st tot e s blobs] h True by simp
    have k: "(\<exists>u. p' = Resolved u) = (e = Stop)"
      using handleEvent_promise[of st tot e s blobs Pending] h True
      by (cases e) (auto split: option.splits)
    show ?thesis
      using True h p' k foldl_settled[OF p', of st tot s' blobs' es] by simp
  next
    case False
    then have "p' = Pending" using handleEvent_pending[of st tot e s blobs] h by simp
    then show ?thesis using False h Cons.IH[of s' blobs'] by simp
  qed
qed

lemma find_untilSettled: "find settles (untilSettled es) = find settles es"
  by (induction es) simp_all

lemma untilSettled_prefix: "prefix (untilSettled es) es"
  by (induction es) simp_all

lemma list_ex_find: "list_ex P xs = (find P xs \<noteq> None)"
  by (induction xs) simp_all

lemma find_append': "find P (xs @ ys) = (case find P xs of None \<Rightarrow> find P ys | Some x \<Rightarrow> Some x)"
  by (induction xs) simp_all

text \<open>
  The handlers leave the refs, the tracks, the timers, the held video and the error
  message as they are.
\<close>

lemma handleEvent_refs:
  "sameRefs (fst acc) (fst (handleEvent st tot e acc))"
  by (cases e; cases acc)
     (auto simp: sameRefs_def setProgress_def called_def createObjectURL_def Let_def split: option.splits)

lemma sameRefs_trans: "sameRefs a b \<Longrightarrow> sameRefs b c \<Longrightarrow> sameRefs a c"
  by (simp add: sameRefs_def)

lemma sameRefs_refl: "sameRefs a a"
  by (simp add: sameRefs_def)

lemma foldl_handleEvent_refs:
  "sameRefs (fst acc) (fst (foldl (\<lambda>acc e. handleEvent st tot e acc) acc es))"
proof (induction es arbitrary: acc)
  case Nil
  show ?case by (simp add: sameRefs_refl)
next
  case (Cons e es)
  show ?case
    using sameRefs_trans[OF handleEvent_refs[of acc st tot e] Cons.IH[of "handleEvent st tot e acc"]]
    by simp
qed

text \<open>Each tick adds one progress report, the sampler's value at its clock reading.\<close>

lemma handleEvent_reports:
  "progressReports (calls (fst (handleEvent st tot e acc)))
     = progressReports (calls (fst acc))
       @ map (\<lambda>t. min 100 ((t - st) / tot * 100)) (ticksOf [e])"
  by (cases e; cases acc)
     (auto simp: setProgress_def called_def createObjectURL_def Let_def progressReports_append
           split: option.splits)

lemma foldl_handleEvent_reports:
  "progressReports (calls (fst (foldl (\<lambda>acc e. handleEvent st tot e acc) acc es)))
     = progressReports (calls (fst acc)) @ map (\<lambda>t. min 100 ((t - st) / tot * 100)) (ticksOf es)"
proof (induction es arbitrary: acc)
  case Nil
  show ?case by simp
next
  case (Cons e es)
  have "ticksOf (e # es) = ticksOf [e] @ ticksOf es"
    using ticksOf_append[of "[e]" es] by simp
  then show ?case
    using Cons.IH[of "handleEvent st tot e acc"] handleEvent_reports[of st tot e acc]
    by simp
qed

text \<open>The list of calls only grows.\<close>

lemma handleEvent_calls: "prefix (calls (fst acc)) (calls (fst (handleEvent st tot e acc)))"
  by (cases e; cases acc)
     (auto simp: setProgress_def called_def createObjectURL_def Let_def split: option.splits)

lemma foldl_handleEvent_calls:
  "prefix (calls (fst acc)) (calls (fst (foldl (\<lambda>acc e. handleEvent st tot e acc) acc es)))"
proof (induction es arbitrary: acc)
  case Nil
  show ?case by simp
next
  case (Cons e es)
  show ?case
    using prefix_order.trans[OF handleEvent_calls[of acc st tot e] Cons.IH[of "handleEvent st tot e acc"]]
    by simp
qed

text \<open>
  The timed part, taken apart: the events before the deadline, the events of the wait,
  and the way the block is left, which depends on the first event that settles the
  promise.
\<close>

lemma awaitRecording_run:
  obtains s2 blobs p2 s3 blobs3 p3 where
    "foldl (\<lambda>acc e. handleEvent (performanceNow env) (CinematicSettings.duration settings * 1000) e acc)
        ((setInterval 120 (interval env) s)\<lparr>progressIntervalRef := Some (interval env)\<rparr>, [], Pending)
        (whileRecording env) = (s2, blobs, p2)"
    "foldl (\<lambda>acc e. handleEvent (performanceNow env) (CinematicSettings.duration settings * 1000) e acc)
        (if \<not> inactiveAtDeadline env then called RecorderStop s2 else s2, blobs, p2)
        (if list_ex settles (whileRecording env) then [] else untilSettled (afterDeadline env))
       = (s3, blobs3, p3)"
    "awaitRecording settings env s =
       (case p3 of
          Pending \<Rightarrow> (s3, NeverResumes)
        | Rejected e \<Rightarrow> (s3, Throws e)
        | Resolved url \<Rightarrow> (setProgress 100 (s3\<lparr>videoUrl := Some url\<rparr>), Completes))"
    "(p3 = Pending) = (settlement env = None)"
    "(\<exists>u. p3 = Resolved u) = (settlement env = Some Stop)"
proof -
  let ?H = "\<lambda>acc e. handleEvent (performanceNow env) (CinematicSettings.duration settings * 1000) e acc"
  let ?s1 = "(setInterval 120 (interval env) s)\<lparr>progressIntervalRef := Some (interval env)\<rparr>"
  obtain s2 blobs p2 where f: "foldl ?H (?s1, [], Pending) (whileRecording env) = (s2, blobs, p2)"
    by (cases "foldl ?H (?s1, [], Pending) (whileRecording env)")
  let ?s2 = "if \<not> inactiveAtDeadline env then called RecorderStop s2 else s2"
  let ?es = "if list_ex settles (whileRecording env) then [] else untilSettled (afterDeadline env)"
  obtain s3 blobs3 p3 where g: "foldl ?H (?s2, blobs, p2) ?es = (s3, blobs3, p3)"
    by (cases "foldl ?H (?s2, blobs, p2) ?es")
  note fp = foldl_promise[of "performanceNow env" "CinematicSettings.duration settings * 1000"
              ?s1 "[]" "whileRecording env", unfolded f]
  have p2: "(p2 = Pending) = (find settles (whileRecording env) = None)"
    using fp by simp
  have p2r: "(\<exists>u. p2 = Resolved u) = (find settles (whileRecording env) = Some Stop)"
    using fp by simp
  have w: "awaitStop (performanceNow env) (CinematicSettings.duration settings * 1000)
             (afterDeadline env) (?s2, blobs, p2) = (s3, blobs3, p3)"
  proof (cases "p2 = Pending")
    case True
    then have "\<not> list_ex settles (whileRecording env)" using p2 by (simp add: list_ex_find)
    then show ?thesis using g True by (simp add: awaitStop_foldl)
  next
    case False
    then have "list_ex settles (whileRecording env)" using p2 by (simp add: list_ex_find)
    then show ?thesis using g False by (simp add: awaitStop_settled)
  qed
  have a: "awaitRecording settings env s =
       (case p3 of
          Pending \<Rightarrow> (s3, NeverResumes)
        | Rejected e \<Rightarrow> (s3, Throws e)
        | Resolved url \<Rightarrow> (setProgress 100 (s3\<lparr>videoUrl := Some url\<rparr>), Completes))"
    using f w by (simp add: awaitRecording_def Let_def split: promise.splits)
  have k: "(p3 = Pending) = (settlement env = None)
         \<and> (\<exists>u. p3 = Resolved u) = (settlement env = Some Stop)"
  proof (cases "p2 = Pending")
    case True
    then have n: "find settles (whileRecording env) = None" using p2 by simp
    then have e: "?es = untilSettled (afterDeadline env)" by (simp add: list_ex_find)
    note gp = foldl_promise[of "performanceNow env" "CinematicSettings.duration settings * 1000"
              ?s2 blobs "untilSettled (afterDeadline env)"]
    have "settlement env = find settles (afterDeadline env)"
      using n by (simp add: settlement_def find_append')
    then show ?thesis using gp g True e by (simp add: find_untilSettled)
  next
    case False
    then obtain x where x: "find settles (whileRecording env) = Some x" using p2 by auto
    then have e: "?es = []" by (simp add: list_ex_find)
    have "p3 = p2" using g e by simp
    moreover have "settlement env = Some x" using x by (simp add: settlement_def find_append')
    ultimately show ?thesis using False p2r x by simp
  qed
  show thesis using that[OF f g a] k by blast
qed

lemma awaitRecording_exit:
  "(snd (awaitRecording settings env s) = NeverResumes) = (settlement env = None)
 \<and> (snd (awaitRecording settings env s) = Completes) = (settlement env = Some Stop)"
proof -
  obtain s2 blobs p2 s3 blobs3 p3 where
    a: "awaitRecording settings env s =
       (case p3 of
          Pending \<Rightarrow> (s3, NeverResumes)
        | Rejected e \<Rightarrow> (s3, Throws e)
        | Resolved url \<Rightarrow> (setProgress 100 (s3\<lparr>videoUrl := Some url\<rparr>), Completes))" and
    k: "(p3 = Pending) = (settlement env = None)"
       "(\<exists>u. p3 = Resolved u) = (settlement env = Some Stop)"
    by (rule awaitRecording_run[of env settings s])
  show ?thesis using k unfolding a by (cases p3) simp_all
qed

lemma awaitRecording_refs:
  assumes "awaitRecording settings env s = (s', x)"
  shows "mediaRecorderRef s' = mediaRecorderRef s \<and> liveTracks s' = liveTracks s
       \<and> progressIntervalRef s' = Some (interval env)
       \<and> activeIntervals s' = activeIntervals s \<union> {interval env}
       \<and> isGenerating s' = isGenerating s \<and> error s' = error s
       \<and> (x \<noteq> Completes \<longrightarrow> videoUrl s' = videoUrl s)
       \<and> (x = Completes \<longrightarrow> progress s' = 100 \<and> videoUrl s' \<noteq> None)"
proof -
  let ?H = "\<lambda>acc e. handleEvent (performanceNow env) (CinematicSettings.duration settings * 1000) e acc"
  let ?s1 = "(setInterval 120 (interval env) s)\<lparr>progressIntervalRef := Some (interval env)\<rparr>"
  let ?es = "if list_ex settles (whileRecording env) then [] else untilSettled (afterDeadline env)"
  obtain s2 blobs p2 s3 blobs3 p3 where
    f: "foldl ?H (?s1, [], Pending) (whileRecording env) = (s2, blobs, p2)" and
    g: "foldl ?H (if \<not> inactiveAtDeadline env then called RecorderStop s2 else s2, blobs, p2) ?es
          = (s3, blobs3, p3)" and
    a: "awaitRecording settings env s =
       (case p3 of
          Pending \<Rightarrow> (s3, NeverResumes)
        | Rejected e \<Rightarrow> (s3, Throws e)
        | Resolved url \<Rightarrow> (setProgress 100 (s3\<lparr>videoUrl := Some url\<rparr>), Completes))"
    by (rule awaitRecording_run[of env settings s])
  have 1: "sameRefs ?s1 s2"
    using foldl_handleEvent_refs[of "(?s1, [], Pending)" "performanceNow env"
        "CinematicSettings.duration settings * 1000" "whileRecording env"] f by simp
  have 2: "sameRefs s2 (if \<not> inactiveAtDeadline env then called RecorderStop s2 else s2)"
    by (simp add: sameRefs_def called_def)
  have 3: "sameRefs (if \<not> inactiveAtDeadline env then called RecorderStop s2 else s2) s3"
    using foldl_handleEvent_refs[of "(if \<not> inactiveAtDeadline env then called RecorderStop s2 else s2, blobs, p2)"
        "performanceNow env" "CinematicSettings.duration settings * 1000" ?es] g by simp
  have 4: "sameRefs ?s1 s3"
    using sameRefs_trans[OF 1 sameRefs_trans[OF 2 3]] .
  show ?thesis using assms 4 unfolding a
    by (cases p3) (auto simp: sameRefs_def setInterval_def called_def setProgress_def)
qed

lemma awaitRecording_reports:
  assumes "awaitRecording settings env s = (s', x)"
  shows "progressReports (calls s') =
           progressReports (calls s)
           @ map (\<lambda>t. min 100 ((t - performanceNow env) / (CinematicSettings.duration settings * 1000) * 100))
               (ticksOf (whileRecording env
                         @ (if list_ex settles (whileRecording env) then []
                            else untilSettled (afterDeadline env))))
           @ (if x = Completes then [100] else [])"
proof -
  let ?H = "\<lambda>acc e. handleEvent (performanceNow env) (CinematicSettings.duration settings * 1000) e acc"
  let ?s1 = "(setInterval 120 (interval env) s)\<lparr>progressIntervalRef := Some (interval env)\<rparr>"
  let ?es = "if list_ex settles (whileRecording env) then [] else untilSettled (afterDeadline env)"
  let ?p = "\<lambda>t. min 100 ((t - performanceNow env) / (CinematicSettings.duration settings * 1000) * 100)"
  obtain s2 blobs p2 s3 blobs3 p3 where
    f: "foldl ?H (?s1, [], Pending) (whileRecording env) = (s2, blobs, p2)" and
    g: "foldl ?H (if \<not> inactiveAtDeadline env then called RecorderStop s2 else s2, blobs, p2) ?es
          = (s3, blobs3, p3)" and
    a: "awaitRecording settings env s =
       (case p3 of
          Pending \<Rightarrow> (s3, NeverResumes)
        | Rejected e \<Rightarrow> (s3, Throws e)
        | Resolved url \<Rightarrow> (setProgress 100 (s3\<lparr>videoUrl := Some url\<rparr>), Completes))"
    by (rule awaitRecording_run[of env settings s])
  have 0: "progressReports (calls ?s1) = progressReports (calls s)"
    by (simp add: setInterval_def called_def progressReports_append)
  have 1: "progressReports (calls s2) = progressReports (calls s) @ map ?p (ticksOf (whileRecording env))"
    using foldl_handleEvent_reports[of "performanceNow env" "CinematicSettings.duration settings * 1000"
        "(?s1, [], Pending)" "whileRecording env"] f 0 by simp
  have 2: "progressReports (calls (if \<not> inactiveAtDeadline env then called RecorderStop s2 else s2))
            = progressReports (calls s2)"
    by (simp add: called_def progressReports_append)
  have 3: "progressReports (calls s3) = progressReports (calls s2) @ map ?p (ticksOf ?es)"
    using foldl_handleEvent_reports[of "performanceNow env" "CinematicSettings.duration settings * 1000"
        "(if \<not> inactiveAtDeadline env then called RecorderStop s2 else s2, blobs, p2)" ?es] g 2
    by simp
  have 4: "progressReports (calls s3) = progressReports (calls s)
             @ map ?p (ticksOf (whileRecording env @ ?es))"
    unfolding 3 1 ticksOf_append by simp
  show ?thesis using assms 4 unfolding a
    by (cases p3) (auto simp: setProgress_def called_def progressReports_append)
qed

lemma awaitRecording_calls:
  assumes "awaitRecording settings env s = (s', x)"
  shows "prefix (calls s @ [SetInterval 120 (interval env)]) (calls s')"
proof -
  let ?H = "\<lambda>acc e. handleEvent (performanceNow env) (CinematicSettings.duration settings * 1000) e acc"
  let ?s1 = "(setInterval 120 (interval env) s)\<lparr>progressIntervalRef := Some (interval env)\<rparr>"
  let ?es = "if list_ex settles (whileRecording env) then [] else untilSettled (afterDeadline env)"
  obtain s2 blobs p2 s3 blobs3 p3 where
    f: "foldl ?H (?s1, [], Pending) (whileRecording env) = (s2, blobs, p2)" and
    g: "foldl ?H (if \<not> inactiveAtDeadline env then called RecorderStop s2 else s2, blobs, p2) ?es
          = (s3, blobs3, p3)" and
    a: "awaitRecording settings env s =
       (case p3 of
          Pending \<Rightarrow> (s3, NeverResumes)
        | Rejected e \<Rightarrow> (s3, Throws e)
        | Resolved url \<Rightarrow> (setProgress 100 (s3\<lparr>videoUrl := Some url\<rparr>), Completes))"
    by (rule awaitRecording_run[of env settings s])
  have 0: "calls ?s1 = calls s @ [SetInterval 120 (interval env)]"
    by (simp add: setInterval_def called_def)
  have 1: "prefix (calls ?s1) (calls s2)"
    using foldl_handleEvent_calls[of "(?s1, [], Pending)"
        "performanceNow env" "CinematicSettings.duration settings * 1000" "whileRecording env"] f
    by simp
  have 2: "prefix (calls s2) (calls (if \<not> inactiveAtDeadline env then called RecorderStop s2 else s2))"
    by (simp add: called_def)
  have 3: "prefix (calls (if \<not> inactiveAtDeadline env then called RecorderStop s2 else s2)) (calls s3)"
    using foldl_handleEvent_calls[of "(if \<not> inactiveAtDeadline env then called RecorderStop s2 else s2, blobs, p2)"
        "performanceNow env" "CinematicSettings.duration settings * 1000" ?es] g
    by simp
  have 4: "prefix (calls s3) (calls s')"
    using assms unfolding a by (cases p3) (auto simp: setProgress_def called_def)
  from 1 2 3 4 have "prefix (calls ?s1) (calls s')"
    using prefix_order.trans by blast
  then show ?thesis unfolding 0 .
qed

text \<open>The \<open>catch\<close> and \<open>finally\<close> blocks and the reset, field by field.\<close>

lemma trackStops:
  "liveTracks (foldl (\<lambda>acc track. trackStop track acc) s ts) = liveTracks s - set ts
 \<and> mediaRecorderRef (foldl (\<lambda>acc track. trackStop track acc) s ts) = mediaRecorderRef s
 \<and> progressIntervalRef (foldl (\<lambda>acc track. trackStop track acc) s ts) = progressIntervalRef s
 \<and> activeIntervals (foldl (\<lambda>acc track. trackStop track acc) s ts) = activeIntervals s
 \<and> videoUrl (foldl (\<lambda>acc track. trackStop track acc) s ts) = videoUrl s
 \<and> error (foldl (\<lambda>acc track. trackStop track acc) s ts) = error s
 \<and> progress (foldl (\<lambda>acc track. trackStop track acc) s ts) = progress s
 \<and> objectUrls (foldl (\<lambda>acc track. trackStop track acc) s ts) = objectUrls s
 \<and> nextUrl (foldl (\<lambda>acc track. trackStop track acc) s ts) = nextUrl s
 \<and> calls (foldl (\<lambda>acc track. trackStop track acc) s ts) = calls s @ map TrackStop ts"
  by (induction ts arbitrary: s) (auto simp: trackStop_def called_def)

lemma progressReports_trackStops: "progressReports (map TrackStop ts) = []"
  by (induction ts) simp_all

lemma called_fields [simp]:
  "calls (called c s) = calls s @ [c]"
  "videoUrl (called c s) = videoUrl s"
  "error (called c s) = error s"
  "progress (called c s) = progress s"
  "isGenerating (called c s) = isGenerating s"
  "mediaRecorderRef (called c s) = mediaRecorderRef s"
  "progressIntervalRef (called c s) = progressIntervalRef s"
  "liveTracks (called c s) = liveTracks s"
  "activeIntervals (called c s) = activeIntervals s"
  "objectUrls (called c s) = objectUrls s"
  "nextUrl (called c s) = nextUrl s"
  by (simp_all add: called_def)

lemma catchBlock_fields [simp]:
  "calls (catchBlock e s) = calls s"
  "videoUrl (catchBlock e s) = videoUrl s"
  "error (catchBlock e s) \<noteq> None"
  "progress (catchBlock e s) = progress s"
  "isGenerating (catchBlock e s) = isGenerating s"
  "mediaRecorderRef (catchBlock e s) = mediaRecorderRef s"
  "progressIntervalRef (catchBlock e s) = progressIntervalRef s"
  "liveTracks (catchBlock e s) = liveTracks s"
  "activeIntervals (catchBlock e s) = activeIntervals s"
  "objectUrls (catchBlock e s) = objectUrls s"
  "nextUrl (catchBlock e s) = nextUrl s"
  by (simp_all add: catchBlock_def)

lemma finallyBlock_fields [simp]:
  "mediaRecorderRef (finallyBlock s) = mediaRecorderRef s"
  "progressIntervalRef (finallyBlock s) = progressIntervalRef s"
  "videoUrl (finallyBlock s) = videoUrl s"
  "error (finallyBlock s) = error s"
  "progress (finallyBlock s) = progress s"
  "objectUrls (finallyBlock s) = objectUrls s"
  "nextUrl (finallyBlock s) = nextUrl s"
  "isGenerating (finallyBlock s) = False"
  "progressReports (calls (finallyBlock s)) = progressReports (calls s)"
  by (auto simp: finallyBlock_def Let_def trackStops clearInterval_def called_def
        progressReports_append progressReports_trackStops split: option.splits)

lemma finallyBlock_calls: "prefix (calls s) (calls (finallyBlock s))"
  by (auto simp: finallyBlock_def Let_def trackStops clearInterval_def called_def
        split: option.splits)

lemma finallyBlock_resources:
  "liveTracks (finallyBlock s)
     = (case mediaRecorderRef s of
          Some r \<Rightarrow> liveTracks s - set (tracks (stream r)) | None \<Rightarrow> liveTracks s)"
  "activeIntervals (finallyBlock s)
     = (case progressIntervalRef s of
          Some i \<Rightarrow> if i \<noteq> 0 then activeIntervals s - {i} else activeIntervals s
        | None \<Rightarrow> activeIntervals s)"
  by (auto simp: finallyBlock_def Let_def trackStops clearInterval_def called_def
        split: option.splits)

lemma resetForCapture_effect:
  "calls (resetForCapture s)
     = calls s @ SetProgress 0 # (case videoUrl s of Some u \<Rightarrow> [RevokeObjectURL u] | None \<Rightarrow> [])
 \<and> videoUrl (resetForCapture s) = None
 \<and> objectUrls (resetForCapture s)
     = (case videoUrl s of Some u \<Rightarrow> (objectUrls s)(u := None) | None \<Rightarrow> objectUrls s)
 \<and> nextUrl (resetForCapture s) = nextUrl s
 \<and> error (resetForCapture s) = None
 \<and> liveTracks (resetForCapture s) = liveTracks s
 \<and> activeIntervals (resetForCapture s) = activeIntervals s
 \<and> mediaRecorderRef (resetForCapture s) = mediaRecorderRef s
 \<and> progressIntervalRef (resetForCapture s) = progressIntervalRef s"
  by (simp add: resetForCapture_def Let_def setProgress_def revokeObjectURL_def called_def
        split: option.splits)

text \<open>
  The runs of \<open>handleGenerate\<close> once the canvas and the recorder support are there: no
  stream, a constructor that throws, a start that throws, and the timed part with its
  three ways of leaving the \<open>try\<close> block.
\<close>

lemma handleGenerateRun_cases:
  assumes "canvasCurrent env" "hasMediaRecorder env"
  shows "(captureStream env = None
          \<and> (\<exists>e. handleGenerateRun settings env s
                   = Returned (finallyBlock (catchBlock e (called (CaptureStream (frameRate settings)) (resetForCapture s))))))
       \<or> (\<exists>ms e. captureStream env = Some ms \<and> newMediaRecorder env = Some e
            \<and> handleGenerateRun settings env s
                = Returned (finallyBlock (catchBlock e
                     (called NewMediaRecorder
                        ((called (CaptureStream (frameRate settings)) (resetForCapture s))
                           \<lparr>liveTracks := liveTracks (resetForCapture s) \<union> set (tracks ms)\<rparr>)))))
       \<or> (\<exists>ms e. captureStream env = Some ms \<and> newMediaRecorder env = None
            \<and> recorderStart env = Some e
            \<and> handleGenerateRun settings env s
                = Returned (finallyBlock (catchBlock e (recording settings ms s))))
       \<or> (\<exists>ms s1 x. captureStream env = Some ms \<and> newMediaRecorder env = None
            \<and> recorderStart env = None
            \<and> awaitRecording settings env (recording settings ms s) = (s1, x)
            \<and> handleGenerateRun settings env s
                = (case x of
                     Completes \<Rightarrow> Returned (finallyBlock s1)
                   | Throws e \<Rightarrow> Returned (finallyBlock (catchBlock e s1))
                   | NeverResumes \<Rightarrow> Suspended s1))"
proof (cases "captureStream env")
  case None
  then show ?thesis using assms by (auto simp: handleGenerateRun_def tryBlock_def Let_def)
next
  case (Some ms)
  note ms = this
  show ?thesis
  proof (cases "newMediaRecorder env")
    case (Some e)
    then show ?thesis using assms ms by (simp add: handleGenerateRun_def tryBlock_def Let_def)
  next
    case None
    note ctor = this
    show ?thesis
    proof (cases "recorderStart env")
      case (Some e)
      then show ?thesis
        using assms ms ctor by (simp add: handleGenerateRun_def tryBlock_def recording_def Let_def)
    next
      case None
      obtain s1 x where a: "awaitRecording settings env (recording settings ms s) = (s1, x)"
        by (cases "awaitRecording settings env (recording settings ms s)")
      have "handleGenerateRun settings env s
                = (case x of
                     Completes \<Rightarrow> Returned (finallyBlock s1)
                   | Throws e \<Rightarrow> Returned (finallyBlock (catchBlock e s1))
                   | NeverResumes \<Rightarrow> Suspended s1)"
        using assms ms ctor None a
        by (simp add: handleGenerateRun_def tryBlock_def recording_def Let_def split: exit.splits)
      then show ?thesis using ms ctor None a by simp
    qed
  qed
qed

lemma recording_effect:
  "mediaRecorderRef (recording settings ms s)
     = Some \<lparr>stream = ms, mimeType = ''video/webm;codecs=vp9'',
             videoBitsPerSecond = max 2500000 (round (mul64 6000000 (bloom settings)))\<rparr>
 \<and> liveTracks (recording settings ms s) = liveTracks s \<union> set (tracks ms)
 \<and> activeIntervals (recording settings ms s) = activeIntervals s
 \<and> error (recording settings ms s) = None
 \<and> videoUrl (recording settings ms s) = None
 \<and> nextUrl (recording settings ms s) = nextUrl s
 \<and> objectUrls (recording settings ms s) = objectUrls (resetForCapture s)
 \<and> calls (recording settings ms s)
     = calls (resetForCapture s) @ [CaptureStream (frameRate settings), NewMediaRecorder, RecorderStart]"
  by (simp add: recording_def resetForCapture_effect)

text \<open>The product in the bitrate at a bloom of one half, which is exact.\<close>

lemma mul64_bloom_half: "mul64 6000000 (1 / 2) = 3000000"
  using binary64_double[of 3000000 0] by (simp add: mul64_def)

text \<open>The captures of the concrete inputs, run.\<close>

lemma handleGenerateRun_captureOk:
  "handleGenerateRun scenarioSettings captureOk studio0 =
     Returned \<lparr>isGenerating = False, progress = 100, videoUrl = Some 0, error = None,
           mediaRecorderRef = Some \<lparr>stream = \<lparr>tracks = [1]\<rparr>, mimeType = ''video/webm;codecs=vp9'',
                                     videoBitsPerSecond = 3000000\<rparr>,
           progressIntervalRef = Some 7, liveTracks = {}, activeIntervals = {},
           objectUrls = [0 \<mapsto> [1, 2, 3, 4]], nextUrl = 1,
           calls = [SetProgress 0, CaptureStream 30, NewMediaRecorder, RecorderStart, SetInterval 120 7,
                    SetProgress 2, SetProgress 50, RecorderStop, SetProgress 100,
                    CreateObjectURL 0, SetProgress 100, ClearInterval 7, TrackStop 1]\<rparr>"
  by (simp add: handleGenerateRun_def tryBlock_def awaitRecording_def resetForCapture_def
        finallyBlock_def captureOk_def studio0_def scenarioSettings_def Let_def
        setProgress_def called_def setInterval_def clearInterval_def trackStop_def
        createObjectURL_def mul64_bloom_half)

lemma handleGenerate_captureOk:
  "handleGenerate scenarioSettings captureOk studio0 =
     Some \<lparr>isGenerating = False, progress = 100, videoUrl = Some 0, error = None,
           mediaRecorderRef = Some \<lparr>stream = \<lparr>tracks = [1]\<rparr>, mimeType = ''video/webm;codecs=vp9'',
                                     videoBitsPerSecond = 3000000\<rparr>,
           progressIntervalRef = Some 7, liveTracks = {}, activeIntervals = {},
           objectUrls = [0 \<mapsto> [1, 2, 3, 4]], nextUrl = 1,
           calls = [SetProgress 0, CaptureStream 30, NewMediaRecorder, RecorderStart, SetInterval 120 7,
                    SetProgress 2, SetProgress 50, RecorderStop, SetProgress 100,
                    CreateObjectURL 0, SetProgress 100, ClearInterval 7, TrackStop 1]\<rparr>"
  by (simp add: handleGenerate_def handleGenerateRun_captureOk)

lemma handleGenerate_captureUnsupported:
  "handleGenerate scenarioSettings captureUnsupported studio0 =
     Some \<lparr>isGenerating = False, progress = 0, videoUrl = None, error = Some ''NotSupportedError'',
           mediaRecorderRef = None,
           progressIntervalRef = None, liveTracks = {1}, activeIntervals = {},
           objectUrls = Map.empty, nextUrl = 0,
           calls = [SetProgress 0, CaptureStream 30, NewMediaRecorder]\<rparr>"
  by (simp add: handleGenerate_def handleGenerateRun_def tryBlock_def resetForCapture_def catchBlock_def
        finallyBlock_def captureUnsupported_def captureOk_def studio0_def scenarioSettings_def Let_def
        setProgress_def called_def)

lemma handleGenerateRun_captureNeverStops:
  "handleGenerateRun scenarioSettings captureNeverStops studio0 =
     Suspended \<lparr>isGenerating = True, progress = 100, videoUrl = None, error = None,
           mediaRecorderRef = Some \<lparr>stream = \<lparr>tracks = [1]\<rparr>, mimeType = ''video/webm;codecs=vp9'',
                                     videoBitsPerSecond = 3000000\<rparr>,
           progressIntervalRef = Some 7, liveTracks = {1}, activeIntervals = {7},
           objectUrls = Map.empty, nextUrl = 0,
           calls = [SetProgress 0, CaptureStream 30, NewMediaRecorder, RecorderStart, SetInterval 120 7,
                    SetProgress 2, SetProgress 50, RecorderStop, SetProgress 100]\<rparr>"
  by (simp add: handleGenerateRun_def tryBlock_def awaitRecording_def resetForCapture_def
        captureNeverStops_def captureOk_def studio0_def scenarioSettings_def Let_def
        setProgress_def called_def setInterval_def mul64_bloom_half)

lemma handleGenerate_captureRecorderFails:
  "handleGenerate scenarioSettings captureRecorderFails studioWithVideo =
     Some \<lparr>isGenerating = False, progress = 2, videoUrl = None,
           error = Some (''Erreur inconnue pendant l'' @ [CHR 0xE2, CHR 0x80, CHR 0x99]
                         @ ''enregistrement.''),
           mediaRecorderRef = Some \<lparr>stream = \<lparr>tracks = [1]\<rparr>, mimeType = ''video/webm;codecs=vp9'',
                                     videoBitsPerSecond = 3000000\<rparr>,
           progressIntervalRef = Some 7, liveTracks = {}, activeIntervals = {},
           objectUrls = [1 \<mapsto> [1, 2, 3]], nextUrl = 2,
           calls = [SetProgress 0, RevokeObjectURL 0, CaptureStream 30, NewMediaRecorder,
                    RecorderStart, SetInterval 120 7, SetProgress 2, CreateObjectURL 1,
                    ClearInterval 7, TrackStop 1]\<rparr>"
  by (simp add: handleGenerate_def handleGenerateRun_def tryBlock_def awaitRecording_def
        resetForCapture_def catchBlock_def
        finallyBlock_def captureRecorderFails_def captureOk_def studioWithVideo_def studio0_def
        scenarioSettings_def Let_def
        setProgress_def called_def setInterval_def clearInterval_def trackStop_def
        createObjectURL_def revokeObjectURL_def mul64_bloom_half)

text \<open>
  Once the stream is captured and the recorder made, the recorder is kept in
  \<open>mediaRecorderRef\<close> in whatever state the run ends, returned or suspended.
\<close>

lemma recorder_kept:
  assumes "canvasCurrent env" and "hasMediaRecorder env"
      and "captureStream env = Some ms" and "newMediaRecorder env = None"
  shows "mediaRecorderRef (stateOf (handleGenerateRun settings env s))
           = Some \<lparr>stream = ms, mimeType = ''video/webm;codecs=vp9'',
                   videoBitsPerSecond = max 2500000 (round (mul64 6000000 (bloom settings)))\<rparr>"
  using handleGenerateRun_cases[OF assms(1,2), of settings s] assms(3,4)
proof (elim disjE exE conjE)
  fix ms' e
  assume "captureStream env = Some ms'"
     "handleGenerateRun settings env s = Returned (finallyBlock (catchBlock e (recording settings ms' s)))"
  then show ?thesis
    using assms(3) recording_effect[of settings ms s] by simp
next
  fix ms' s1 x
  assume ms': "captureStream env = Some ms'"
     and a: "awaitRecording settings env (recording settings ms' s) = (s1, x)"
     and r: "handleGenerateRun settings env s
                = (case x of
                     Completes \<Rightarrow> Returned (finallyBlock s1)
                   | Throws e \<Rightarrow> Returned (finallyBlock (catchBlock e s1))
                   | NeverResumes \<Rightarrow> Suspended s1)"
  have "ms' = ms" using ms' assms(3) by simp
  then have "mediaRecorderRef s1 = mediaRecorderRef (recording settings ms s)"
    using awaitRecording_refs[OF a] by simp
  then show ?thesis
    unfolding r using recording_effect[of settings ms s] by (cases x) simp_all
qed simp_all

text \<open>
  The bitrate at the double nearest to 0.50000075: the exact product is just below
  3000004.5 and the product the source computes is 3000004.5, which rounds up.
\<close>

lemma bitrate_rounds_the_double:
  "max 2500000 (round (mul64 6000000 bloomAboveHalf)) = 3000005
 \<and> round (6000000 * bloomAboveHalf) = 3000004"
proof -
  have 1: "mul64 6000000 bloomAboveHalf = 6000009 / 2"
    unfolding mul64_def bloomAboveHalf_def
    by (subst binary64_eval[of 21])
       (simp_all add: power_int_minus roundTiesToEven_def field_simps)
  have 2: "round (6000009 / 2 :: real) = 3000005"
    by (simp add: round_def floor_eq_iff)
  have 3: "round (6000000 * bloomAboveHalf) = 3000004"
    unfolding bloomAboveHalf_def by (simp add: round_def floor_eq_iff)
  show ?thesis unfolding 1 2 using 3 by simp
qed

text \<open>
  C5. Whenever the capture gets as far as making the recorder, the recorder kept in
  \<open>mediaRecorderRef\<close> is bound to the captured stream and its target video bitrate is
  \<open>max 2500000 (round (6000000 * bloom))\<close>, the product being the one the source computes,
  rounded to the nearest double; for a bloom of 0.5 that is 3000000, and for the double
  nearest to 0.50000075, where the product is 3000004.5, it is 3000005. This holds in the
  state the run ends in, whether the routine returns or stays suspended, and so in the
  state \<open>handleGenerate\<close> returns. The bloom is taken of magnitude up to \<open>2^1000\<close>, so that
  the product is finite.
\<close>

theorem handleGenerate_bitrate:
  assumes "canvasCurrent env" and "hasMediaRecorder env"
      and "captureStream env = Some ms" and "newMediaRecorder env = None"
      and "\<bar>bloom settings\<bar> \<le> 2 ^ 1000"
  shows "\<exists>r. mediaRecorderRef (stateOf (handleGenerateRun settings env s)) = Some r
           \<and> stream r = ms
           \<and> videoBitsPerSecond r = max 2500000 (round (mul64 6000000 (bloom settings)))
           \<and> (bloom settings = 0.5 \<longrightarrow> videoBitsPerSecond r = 3000000)
           \<and> (bloom settings = bloomAboveHalf \<longrightarrow> videoBitsPerSecond r = 3000005)
           \<and> (\<forall>s'. handleGenerate settings env s = Some s' \<longrightarrow> mediaRecorderRef s' = Some r)"
proof -
  let ?r = "\<lparr>stream = ms, mimeType = ''video/webm;codecs=vp9'',
             videoBitsPerSecond = max 2500000 (round (mul64 6000000 (bloom settings)))\<rparr>"
  have ref: "mediaRecorderRef (stateOf (handleGenerateRun settings env s)) = Some ?r"
    using assms(1-4) by (rule recorder_kept)
  have half: "bloom settings = 0.5 \<longrightarrow> videoBitsPerSecond ?r = 3000000"
  proof
    assume b: "bloom settings = 0.5"
    have "mul64 6000000 (bloom settings) = 3000000"
      unfolding b using mul64_bloom_half by simp
    then show "videoBitsPerSecond ?r = 3000000" by simp
  qed
  have above: "bloom settings = bloomAboveHalf \<longrightarrow> videoBitsPerSecond ?r = 3000005"
    using bitrate_rounds_the_double by simp
  have ret: "\<forall>s'. handleGenerate settings env s = Some s' \<longrightarrow> mediaRecorderRef s' = Some ?r"
  proof (intro allI impI)
    fix s' assume "handleGenerate settings env s = Some s'"
    then have "handleGenerateRun settings env s = Returned s'"
      by (cases "handleGenerateRun settings env s") (simp_all add: handleGenerate_def)
    then show "mediaRecorderRef s' = Some ?r" using ref by simp
  qed
  have "mediaRecorderRef (stateOf (handleGenerateRun settings env s)) = Some ?r
           \<and> stream ?r = ms
           \<and> videoBitsPerSecond ?r = max 2500000 (round (mul64 6000000 (bloom settings)))
           \<and> (bloom settings = 0.5 \<longrightarrow> videoBitsPerSecond ?r = 3000000)
           \<and> (bloom settings = bloomAboveHalf \<longrightarrow> videoBitsPerSecond ?r = 3000005)
           \<and> (\<forall>s'. handleGenerate settings env s = Some s' \<longrightarrow> mediaRecorderRef s' = Some ?r)"
    using ref half above ret by simp
  then show ?thesis by (rule exI[of _ ?r])
qed

theorem handleGenerate_bitrate_witness:
  "canvasCurrent captureOk \<and> hasMediaRecorder captureOk
 \<and> captureStream captureOk = Some \<lparr>tracks = [1]\<rparr>
 \<and> newMediaRecorder captureOk = None
 \<and> \<bar>bloom scenarioSettings\<bar> \<le> 2 ^ 1000
 \<and> bloom scenarioSettings = 0.5
 \<and> handleGenerate scenarioSettings captureOk studio0 \<noteq> None
 \<and> map_option (map_option videoBitsPerSecond \<circ> mediaRecorderRef)
       (handleGenerate scenarioSettings captureOk studio0) = Some (Some 3000000)
 \<and> canvasCurrent captureNeverStops \<and> hasMediaRecorder captureNeverStops
 \<and> captureStream captureNeverStops = Some \<lparr>tracks = [1]\<rparr>
 \<and> newMediaRecorder captureNeverStops = None
 \<and> handleGenerate scenarioSettings captureNeverStops studio0 = None
 \<and> map_option videoBitsPerSecond
       (mediaRecorderRef (stateOf (handleGenerateRun scenarioSettings captureNeverStops studio0)))
     = Some 3000000
 \<and> \<bar>bloom (scenarioSettings\<lparr>bloom := bloomAboveHalf\<rparr>)\<bar> \<le> 2 ^ 1000
 \<and> map_option videoBitsPerSecond
       (mediaRecorderRef (stateOf (handleGenerateRun (scenarioSettings\<lparr>bloom := bloomAboveHalf\<rparr>)
                                     captureOk studio0)))
     = Some 3000005"
proof -
  have 1: "canvasCurrent captureOk" "hasMediaRecorder captureOk"
    "captureStream captureOk = Some \<lparr>tracks = [1]\<rparr>" "newMediaRecorder captureOk = None"
    by (simp_all add: captureOk_def)
  have 2: "canvasCurrent captureNeverStops" "hasMediaRecorder captureNeverStops"
    "captureStream captureNeverStops = Some \<lparr>tracks = [1]\<rparr>" "newMediaRecorder captureNeverStops = None"
    by (simp_all add: captureNeverStops_def captureOk_def)
  have b: "bloom scenarioSettings = 0.5" by (simp add: scenarioSettings_def)
  have m: "\<bar>bloom scenarioSettings\<bar> \<le> 2 ^ 1000" by (simp add: scenarioSettings_def)
  obtain s' where r: "handleGenerate scenarioSettings captureOk studio0 = Some s'"
    by (simp add: handleGenerate_captureOk)
  from handleGenerate_bitrate [OF 1 m, of studio0] b r obtain rc where
    "mediaRecorderRef s' = Some rc" "videoBitsPerSecond rc = 3000000" by blast
  then have ok: "map_option (map_option videoBitsPerSecond \<circ> mediaRecorderRef)
       (handleGenerate scenarioSettings captureOk studio0) = Some (Some 3000000)"
    using r by simp
  have n: "handleGenerate scenarioSettings captureNeverStops studio0 = None"
    by (simp add: handleGenerate_def handleGenerateRun_captureNeverStops)
  from handleGenerate_bitrate [OF 2 m, of studio0] b obtain rn where
    "mediaRecorderRef (stateOf (handleGenerateRun scenarioSettings captureNeverStops studio0)) = Some rn"
    "videoBitsPerSecond rn = 3000000" by blast
  then have never: "map_option videoBitsPerSecond
       (mediaRecorderRef (stateOf (handleGenerateRun scenarioSettings captureNeverStops studio0)))
     = Some 3000000"
    by simp
  have b3: "bloom (scenarioSettings\<lparr>bloom := bloomAboveHalf\<rparr>) = bloomAboveHalf" by simp
  have m3: "\<bar>bloom (scenarioSettings\<lparr>bloom := bloomAboveHalf\<rparr>)\<bar> \<le> 2 ^ 1000"
    by (simp add: bloomAboveHalf_def)
  from handleGenerate_bitrate [OF 1 m3, of studio0] b3 obtain ra where
    "mediaRecorderRef (stateOf (handleGenerateRun (scenarioSettings\<lparr>bloom := bloomAboveHalf\<rparr>)
                                  captureOk studio0)) = Some ra"
    "videoBitsPerSecond ra = 3000005" by blast
  then have above: "map_option videoBitsPerSecond
       (mediaRecorderRef (stateOf (handleGenerateRun (scenarioSettings\<lparr>bloom := bloomAboveHalf\<rparr>)
                                     captureOk studio0)))
     = Some 3000005"
    by simp
  show ?thesis using 1 2 b m r ok n never m3 above by simp
qed

text \<open>
  Once the recorder is made and kept in \<open>mediaRecorderRef\<close>, every exit of the routine stops
  the tracks of the captured stream, and clears the progress interval if it was set.
\<close>

lemma cleanup_when_recorder_made:
  assumes "handleGenerate settings env s = Some s'"
      and "canvasCurrent env" and "hasMediaRecorder env"
      and "captureStream env = Some ms" and "newMediaRecorder env = None"
  shows "liveTracks s' \<inter> set (tracks ms) = {}
       \<and> (recorderStart env = None \<and> interval env \<noteq> 0 \<longrightarrow> interval env \<notin> activeIntervals s')"
proof -
  have run: "handleGenerateRun settings env s = Returned s'"
    using assms(1) by (cases "handleGenerateRun settings env s") (simp_all add: handleGenerate_def)
  show ?thesis
    using handleGenerateRun_cases[OF assms(2,3), of settings s] assms(4,5)
  proof (elim disjE exE conjE)
    fix ms' e
    assume "captureStream env = Some ms'" "recorderStart env = Some e"
       "handleGenerateRun settings env s = Returned (finallyBlock (catchBlock e (recording settings ms' s)))"
    then show ?thesis
      using assms(4) run recording_effect[of settings ms s]
      by (auto simp: finallyBlock_resources)
  next
    fix ms' s1 x
    assume ms': "captureStream env = Some ms'"
       and st: "recorderStart env = None"
       and a: "awaitRecording settings env (recording settings ms' s) = (s1, x)"
       and r: "handleGenerateRun settings env s
                = (case x of
                     Completes \<Rightarrow> Returned (finallyBlock s1)
                   | Throws e \<Rightarrow> Returned (finallyBlock (catchBlock e s1))
                   | NeverResumes \<Rightarrow> Suspended s1)"
    have m: "ms' = ms" using ms' assms(4) by simp
    note ar = awaitRecording_refs[OF a, unfolded m]
    note re = recording_effect[of settings ms s]
    show ?thesis
    proof (cases x)
      case Completes
      then have "s' = finallyBlock s1" using r run by simp
      then show ?thesis using ar re by (auto simp: finallyBlock_resources)
    next
      case (Throws e)
      then have "s' = finallyBlock (catchBlock e s1)" using r run by simp
      then show ?thesis using ar re by (auto simp: finallyBlock_resources)
    next
      case NeverResumes
      then show ?thesis using r run by simp
    qed
  qed simp_all
qed

text \<open>
  C7. The claim asks that every exit path stops the live tracks of the captured stream.
  When the \<open>MediaRecorder\<close> constructor throws, the stream is already captured but
  \<open>mediaRecorderRef\<close> is not yet set, and the \<open>finally\<close> block, which reaches the tracks
  through that ref only, stops nothing: track 1 of the captured stream is still live when
  the routine returns with the error message. In the same browser with a constructor that
  succeeds, no track is left live.
\<close>

theorem tracks_left_live_when_constructor_throws:
  "map_option liveTracks (handleGenerate scenarioSettings captureUnsupported studio0) = Some {1}
 \<and> map_option error (handleGenerate scenarioSettings captureUnsupported studio0)
     = Some (Some ''NotSupportedError'')
 \<and> map_option calls (handleGenerate scenarioSettings captureUnsupported studio0)
     = Some [SetProgress 0, CaptureStream 30, NewMediaRecorder]
 \<and> captureStream captureUnsupported = Some \<lparr>tracks = [1]\<rparr>
 \<and> liveTracks studio0 = {}
 \<and> map_option liveTracks (handleGenerate scenarioSettings captureOk studio0) = Some {}"
proof -
  have "captureStream captureUnsupported = Some \<lparr>tracks = [1]\<rparr>"
    by (simp add: captureUnsupported_def captureOk_def)
  moreover have "liveTracks studio0 = {}"
    by (simp add: studio0_def)
  ultimately show ?thesis
    by (simp add: handleGenerate_captureUnsupported handleGenerate_captureOk)
qed

text \<open>
  Every run that starts goes through the reset first: its calls begin with those of the
  reset, which revoke the URL held at the start, if any.
\<close>

lemma run_starts_with_reset:
  assumes "canvasCurrent env" and "hasMediaRecorder env"
  shows "prefix (calls (resetForCapture s)) (calls (stateOf (handleGenerateRun settings env s)))"
  using handleGenerateRun_cases[OF assms, of settings s]
proof (elim disjE exE conjE)
  fix e
  assume r: "handleGenerateRun settings env s
               = Returned (finallyBlock (catchBlock e (called (CaptureStream (frameRate settings)) (resetForCapture s))))"
  show ?thesis
    unfolding r
    using finallyBlock_calls[of "catchBlock e (called (CaptureStream (frameRate settings)) (resetForCapture s))"]
    by (auto simp: prefix_def)
next
  fix ms :: MediaStream and e
  assume r: "handleGenerateRun settings env s
                = Returned (finallyBlock (catchBlock e
                     (called NewMediaRecorder
                        ((called (CaptureStream (frameRate settings)) (resetForCapture s))
                           \<lparr>liveTracks := liveTracks (resetForCapture s) \<union> set (tracks ms)\<rparr>))))"
  show ?thesis
    unfolding r
    using finallyBlock_calls[of "catchBlock e
                     (called NewMediaRecorder
                        ((called (CaptureStream (frameRate settings)) (resetForCapture s))
                           \<lparr>liveTracks := liveTracks (resetForCapture s) \<union> set (tracks ms)\<rparr>))"]
    by (auto simp: prefix_def)
next
  fix ms e
  assume r: "handleGenerateRun settings env s
                = Returned (finallyBlock (catchBlock e (recording settings ms s)))"
  show ?thesis
    unfolding r
    using finallyBlock_calls[of "catchBlock e (recording settings ms s)"]
      recording_effect[of settings ms s]
    by (auto simp: prefix_def)
next
  fix ms s1 x
  assume a: "awaitRecording settings env (recording settings ms s) = (s1, x)"
     and r: "handleGenerateRun settings env s
                = (case x of
                     Completes \<Rightarrow> Returned (finallyBlock s1)
                   | Throws e \<Rightarrow> Returned (finallyBlock (catchBlock e s1))
                   | NeverResumes \<Rightarrow> Suspended s1)"
  have "prefix (calls (recording settings ms s)) (calls s1)"
    using awaitRecording_calls[OF a] by (auto simp: prefix_def)
  then have p: "prefix (calls (resetForCapture s)) (calls s1)"
    using recording_effect[of settings ms s] by (auto simp: prefix_def)
  show ?thesis
  proof (cases x)
    case Completes
    then show ?thesis using r p finallyBlock_calls[of s1] prefix_order.trans by auto
  next
    case (Throws e)
    then show ?thesis using r p finallyBlock_calls[of "catchBlock e s1"] prefix_order.trans by auto
  next
    case NeverResumes
    then show ?thesis using r p by simp
  qed
qed

lemma held_video_revoked_first:
  assumes "canvasCurrent env" and "hasMediaRecorder env" and "videoUrl s = Some u"
  shows "\<exists>post. calls (stateOf (handleGenerateRun settings env s))
                  = calls s @ SetProgress 0 # RevokeObjectURL u # post"
proof -
  have "calls (resetForCapture s) = calls s @ [SetProgress 0, RevokeObjectURL u]"
    using resetForCapture_effect[of s] assms(3) by simp
  then obtain post where
    "calls (stateOf (handleGenerateRun settings env s))
       = (calls s @ [SetProgress 0, RevokeObjectURL u]) @ post"
    using run_starts_with_reset[OF assms(1,2), of s settings] by (auto simp: prefix_def)
  then have "calls (stateOf (handleGenerateRun settings env s))
       = calls s @ SetProgress 0 # RevokeObjectURL u # post" by simp
  then show ?thesis by (rule exI[of _ post])
qed

text \<open>
  The capture of the concrete inputs that completes, run in the state that the capture
  with the failing recorder returns.
\<close>

lemma handleGenerate_after_failure:
  "handleGenerate scenarioSettings captureOk
     \<lparr>isGenerating = False, progress = 2, videoUrl = None,
      error = Some (''Erreur inconnue pendant l'' @ [CHR 0xE2, CHR 0x80, CHR 0x99]
                    @ ''enregistrement.''),
      mediaRecorderRef = Some \<lparr>stream = \<lparr>tracks = [1]\<rparr>, mimeType = ''video/webm;codecs=vp9'',
                                videoBitsPerSecond = 3000000\<rparr>,
      progressIntervalRef = Some 7, liveTracks = {}, activeIntervals = {},
      objectUrls = [1 \<mapsto> [1, 2, 3]], nextUrl = 2,
      calls = [SetProgress 0, RevokeObjectURL 0, CaptureStream 30, NewMediaRecorder,
               RecorderStart, SetInterval 120 7, SetProgress 2, CreateObjectURL 1,
               ClearInterval 7, TrackStop 1]\<rparr>
   = Some \<lparr>isGenerating = False, progress = 100, videoUrl = Some 2, error = None,
           mediaRecorderRef = Some \<lparr>stream = \<lparr>tracks = [1]\<rparr>, mimeType = ''video/webm;codecs=vp9'',
                                     videoBitsPerSecond = 3000000\<rparr>,
           progressIntervalRef = Some 7, liveTracks = {}, activeIntervals = {},
           objectUrls = [1 \<mapsto> [1, 2, 3], 2 \<mapsto> [1, 2, 3, 4]], nextUrl = 3,
           calls = [SetProgress 0, RevokeObjectURL 0, CaptureStream 30, NewMediaRecorder,
                    RecorderStart, SetInterval 120 7, SetProgress 2, CreateObjectURL 1,
                    ClearInterval 7, TrackStop 1,
                    SetProgress 0, CaptureStream 30, NewMediaRecorder, RecorderStart,
                    SetInterval 120 7, SetProgress 2, SetProgress 50, RecorderStop,
                    SetProgress 100, CreateObjectURL 2, SetProgress 100, ClearInterval 7,
                    TrackStop 1]\<rparr>"
  by (simp add: handleGenerate_def handleGenerateRun_def tryBlock_def awaitRecording_def
        resetForCapture_def finallyBlock_def captureOk_def scenarioSettings_def Let_def
        setProgress_def called_def setInterval_def clearInterval_def trackStop_def
        createObjectURL_def mul64_bloom_half)

text \<open>
  C8. The claim asks that a capture started while a previous artifact is live releases it,
  so that at most one generated artifact is retained at any time. The URL held in
  \<open>videoUrl\<close> is released, first of all. But when the recorder fails while recording it
  fires \<open>error\<close> and then \<open>stop\<close>: the error rejects \<open>stopPromise\<close>, and \<open>onstop\<close> still
  registers an object URL for the recorded blob, which nothing holds. The routine returns
  with the error message, holding no URL, and URL 1 stays registered. The next capture
  finds no URL held and revokes nothing; it completes and holds URL 2. Two object URLs are
  registered then, and no call of the two captures revokes URL 1.
\<close>

theorem unheld_video_never_released:
  "videoUrl studioWithVideo = Some 0
 \<and> map_option (take 2 \<circ> calls) (handleGenerate scenarioSettings captureRecorderFails studioWithVideo)
     = Some [SetProgress 0, RevokeObjectURL 0]
 \<and> map_option videoUrl (handleGenerate scenarioSettings captureRecorderFails studioWithVideo)
     = Some None
 \<and> map_option (dom \<circ> objectUrls) (handleGenerate scenarioSettings captureRecorderFails studioWithVideo)
     = Some {1}
 \<and> map_option videoUrl
       (Option.bind (handleGenerate scenarioSettings captureRecorderFails studioWithVideo)
          (handleGenerate scenarioSettings captureOk))
     = Some (Some 2)
 \<and> map_option (dom \<circ> objectUrls)
       (Option.bind (handleGenerate scenarioSettings captureRecorderFails studioWithVideo)
          (handleGenerate scenarioSettings captureOk))
     = Some {1, 2}
 \<and> map_option (\<lambda>s. RevokeObjectURL 1 \<in> set (calls s))
       (Option.bind (handleGenerate scenarioSettings captureRecorderFails studioWithVideo)
          (handleGenerate scenarioSettings captureOk))
     = Some False"
proof -
  have v: "videoUrl studioWithVideo = Some 0" by (simp add: studioWithVideo_def studio0_def)
  note a = handleGenerate_captureRecorderFails
  have b: "Option.bind (handleGenerate scenarioSettings captureRecorderFails studioWithVideo)
          (handleGenerate scenarioSettings captureOk)
        = Some \<lparr>isGenerating = False, progress = 100, videoUrl = Some 2, error = None,
           mediaRecorderRef = Some \<lparr>stream = \<lparr>tracks = [1]\<rparr>, mimeType = ''video/webm;codecs=vp9'',
                                     videoBitsPerSecond = 3000000\<rparr>,
           progressIntervalRef = Some 7, liveTracks = {}, activeIntervals = {},
           objectUrls = [1 \<mapsto> [1, 2, 3], 2 \<mapsto> [1, 2, 3, 4]], nextUrl = 3,
           calls = [SetProgress 0, RevokeObjectURL 0, CaptureStream 30, NewMediaRecorder,
                    RecorderStart, SetInterval 120 7, SetProgress 2, CreateObjectURL 1,
                    ClearInterval 7, TrackStop 1,
                    SetProgress 0, CaptureStream 30, NewMediaRecorder, RecorderStart,
                    SetInterval 120 7, SetProgress 2, SetProgress 50, RecorderStop,
                    SetProgress 100, CreateObjectURL 2, SetProgress 100, ClearInterval 7,
                    TrackStop 1]\<rparr>"
    unfolding a Option.bind.simps by (rule handleGenerate_after_failure)
  have 1: "map_option (take 2 \<circ> calls) (handleGenerate scenarioSettings captureRecorderFails studioWithVideo)
     = Some [SetProgress 0, RevokeObjectURL 0]"
    unfolding a by simp
  have 2: "map_option videoUrl (handleGenerate scenarioSettings captureRecorderFails studioWithVideo)
     = Some None"
    unfolding a by simp
  have 3: "map_option (dom \<circ> objectUrls) (handleGenerate scenarioSettings captureRecorderFails studioWithVideo)
     = Some {1}"
    unfolding a by simp
  have 4: "map_option videoUrl
       (Option.bind (handleGenerate scenarioSettings captureRecorderFails studioWithVideo)
          (handleGenerate scenarioSettings captureOk))
     = Some (Some 2)"
    unfolding b by simp
  have 5: "map_option (dom \<circ> objectUrls)
       (Option.bind (handleGenerate scenarioSettings captureRecorderFails studioWithVideo)
          (handleGenerate scenarioSettings captureOk))
     = Some {1, 2}"
    unfolding b by auto
  have 6: "map_option (\<lambda>s. RevokeObjectURL 1 \<in> set (calls s))
       (Option.bind (handleGenerate scenarioSettings captureRecorderFails studioWithVideo)
          (handleGenerate scenarioSettings captureOk))
     = Some False"
    unfolding b by simp
  from v 1 2 3 4 5 6 show ?thesis by (intro conjI)
qed

text \<open>
  How a run that starts ends: it returns unless the recorder starts and nothing ever
  settles the promise; it completes, with no error message and the progress at 100, exactly
  when the recorder starts and the first event to settle the promise is \<open>stop\<close>.
\<close>

lemma handleGenerateRun_outcome:
  assumes "canvasCurrent env" and "hasMediaRecorder env"
  shows "returned (handleGenerateRun settings env s) = (recorderStarts env \<longrightarrow> settlement env \<noteq> None)
       \<and> (recorderStarts env \<and> settlement env = Some Stop \<longrightarrow>
            error (stateOf (handleGenerateRun settings env s)) = None
          \<and> progress (stateOf (handleGenerateRun settings env s)) = 100)
       \<and> (returned (handleGenerateRun settings env s)
          \<and> error (stateOf (handleGenerateRun settings env s)) = None \<longrightarrow>
            recorderStarts env \<and> settlement env = Some Stop)"
  using handleGenerateRun_cases[OF assms, of settings s]
proof (elim disjE exE conjE)
  fix e
  assume "captureStream env = None"
     and r: "handleGenerateRun settings env s
               = Returned (finallyBlock (catchBlock e (called (CaptureStream (frameRate settings)) (resetForCapture s))))"
  then have "\<not> recorderStarts env" by (simp add: recorderStarts_def)
  then show ?thesis unfolding r by simp
next
  fix ms :: MediaStream and e
  assume "newMediaRecorder env = Some e"
     and r: "handleGenerateRun settings env s
                = Returned (finallyBlock (catchBlock e
                     (called NewMediaRecorder
                        ((called (CaptureStream (frameRate settings)) (resetForCapture s))
                           \<lparr>liveTracks := liveTracks (resetForCapture s) \<union> set (tracks ms)\<rparr>))))"
  then have "\<not> recorderStarts env" by (simp add: recorderStarts_def)
  then show ?thesis unfolding r by simp
next
  fix ms e
  assume "recorderStart env = Some e"
     and r: "handleGenerateRun settings env s
                = Returned (finallyBlock (catchBlock e (recording settings ms s)))"
  then have "\<not> recorderStarts env" by (simp add: recorderStarts_def)
  then show ?thesis unfolding r by simp
next
  fix ms s1 x
  assume "captureStream env = Some ms" "newMediaRecorder env = None" "recorderStart env = None"
     and a: "awaitRecording settings env (recording settings ms s) = (s1, x)"
     and r: "handleGenerateRun settings env s
                = (case x of
                     Completes \<Rightarrow> Returned (finallyBlock s1)
                   | Throws e \<Rightarrow> Returned (finallyBlock (catchBlock e s1))
                   | NeverResumes \<Rightarrow> Suspended s1)"
  then have st: "recorderStarts env" by (simp add: recorderStarts_def)
  note ex = awaitRecording_exit[of settings env "recording settings ms s", unfolded a, simplified]
  note ar = awaitRecording_refs[OF a]
  note re = recording_effect[of settings ms s]
  show ?thesis
  proof (cases x)
    case Completes
    then have "settlement env = Some Stop" using ex by simp
    then show ?thesis unfolding r using Completes st ar re by simp
  next
    case (Throws e)
    then have "settlement env \<noteq> None" "settlement env \<noteq> Some Stop" using ex by simp_all
    then show ?thesis unfolding r using Throws st by simp
  next
    case NeverResumes
    then have "settlement env = None" using ex by simp
    then show ?thesis unfolding r using NeverResumes st by simp
  qed
qed

text \<open>
  The progress reports of a run that starts: a 0 at the reset, then one value per tick
  that is handled, then a 100 when the run completes.
\<close>

lemma reset_reports:
  "\<exists>pre. calls (resetForCapture s) = calls s @ pre \<and> progressReports pre = [0]"
  using resetForCapture_effect[of s] by (cases "videoUrl s") simp_all

lemma reports_early:
  assumes x: "prefix (calls (resetForCapture s)) (calls x)"
             "progressReports (calls x) = progressReports (calls (resetForCapture s))"
  shows "\<exists>cs. calls (finallyBlock (catchBlock e x)) = calls s @ cs \<and> progressReports cs = [0]"
proof -
  obtain pre where pre: "calls (resetForCapture s) = calls s @ pre" "progressReports pre = [0]"
    using reset_reports by blast
  obtain mid where mid: "calls x = calls (resetForCapture s) @ mid"
    using x(1) by (auto simp: prefix_def)
  obtain post where post: "calls (finallyBlock (catchBlock e x)) = calls (catchBlock e x) @ post"
    using finallyBlock_calls[of "catchBlock e x"] by (auto simp: prefix_def)
  have cs: "calls (finallyBlock (catchBlock e x)) = calls s @ (pre @ mid @ post)"
    unfolding post using mid pre by simp
  have "progressReports (calls (finallyBlock (catchBlock e x))) = progressReports (calls s) @ [0]"
    using x(2) pre by (simp add: progressReports_append)
  then have r: "progressReports (pre @ mid @ post) = [0]"
    unfolding cs by (simp add: progressReports_append)
  from cs r show ?thesis by (intro exI[of _ "pre @ mid @ post"] conjI)
qed

lemma handleGenerateRun_reports:
  assumes "canvasCurrent env" and "hasMediaRecorder env"
  shows "\<exists>cs. calls (stateOf (handleGenerateRun settings env s)) = calls s @ cs
           \<and> progressReports cs =
               0 # map (\<lambda>t. min 100 ((t - performanceNow env)
                                       / (CinematicSettings.duration settings * 1000) * 100))
                       (ticksOf (handledEvents env))
               @ (if recorderStarts env \<and> settlement env = Some Stop then [100] else [])
           \<and> (recorderStarts env \<longrightarrow> SetInterval 120 (interval env) \<in> set cs)"
proof -
  let ?p = "\<lambda>t. min 100 ((t - performanceNow env) / (CinematicSettings.duration settings * 1000) * 100)"
  have early: ?thesis
    if n: "\<not> recorderStarts env"
    and c: "\<exists>cs. calls (stateOf (handleGenerateRun settings env s)) = calls s @ cs
                \<and> progressReports cs = [0]"
  proof -
    from c obtain cs where
      all: "calls (stateOf (handleGenerateRun settings env s)) = calls s @ cs
            \<and> progressReports cs = [0]" ..
    have 1: "calls (stateOf (handleGenerateRun settings env s)) = calls s @ cs"
      using all by (elim conjE)
    have r: "progressReports cs = [0]" using all by (elim conjE)
    have 2: "progressReports cs =
               0 # map ?p (ticksOf (handledEvents env))
               @ (if recorderStarts env \<and> settlement env = Some Stop then [100] else [])"
      using r n by (simp add: handledEvents_def)
    have 3: "recorderStarts env \<longrightarrow> SetInterval 120 (interval env) \<in> set cs" using n by simp
    show ?thesis using 1 2 3 by (intro exI[of _ cs] conjI)
  qed
  show ?thesis
    using handleGenerateRun_cases[OF assms, of settings s]
  proof (elim disjE exE conjE)
    fix e
    assume "captureStream env = None"
       and r: "handleGenerateRun settings env s
               = Returned (finallyBlock (catchBlock e (called (CaptureStream (frameRate settings)) (resetForCapture s))))"
    then have n: "\<not> recorderStarts env" by (simp add: recorderStarts_def)
    show ?thesis
    proof (rule early[OF n], unfold r stateOf.simps, rule reports_early)
      show "prefix (calls (resetForCapture s)) (calls (called (CaptureStream (frameRate settings)) (resetForCapture s)))"
        by simp
      show "progressReports (calls (called (CaptureStream (frameRate settings)) (resetForCapture s)))
              = progressReports (calls (resetForCapture s))"
        by (simp add: progressReports_append)
    qed
  next
    fix ms :: MediaStream and e
    assume "newMediaRecorder env = Some e"
       and r: "handleGenerateRun settings env s
                = Returned (finallyBlock (catchBlock e
                     (called NewMediaRecorder
                        ((called (CaptureStream (frameRate settings)) (resetForCapture s))
                           \<lparr>liveTracks := liveTracks (resetForCapture s) \<union> set (tracks ms)\<rparr>))))"
    then have n: "\<not> recorderStarts env" by (simp add: recorderStarts_def)
    show ?thesis
    proof (rule early[OF n], unfold r stateOf.simps, rule reports_early)
      show "prefix (calls (resetForCapture s))
              (calls (called NewMediaRecorder
                        ((called (CaptureStream (frameRate settings)) (resetForCapture s))
                           \<lparr>liveTracks := liveTracks (resetForCapture s) \<union> set (tracks ms)\<rparr>)))"
        by simp
      show "progressReports (calls (called NewMediaRecorder
                        ((called (CaptureStream (frameRate settings)) (resetForCapture s))
                           \<lparr>liveTracks := liveTracks (resetForCapture s) \<union> set (tracks ms)\<rparr>)))
              = progressReports (calls (resetForCapture s))"
        by (simp add: progressReports_append)
    qed
  next
    fix ms e
    assume "recorderStart env = Some e"
       and r: "handleGenerateRun settings env s
                = Returned (finallyBlock (catchBlock e (recording settings ms s)))"
    then have n: "\<not> recorderStarts env" by (simp add: recorderStarts_def)
    show ?thesis
    proof (rule early[OF n], unfold r stateOf.simps, rule reports_early)
      show "prefix (calls (resetForCapture s)) (calls (recording settings ms s))"
        using recording_effect[of settings ms s] by simp
      show "progressReports (calls (recording settings ms s))
              = progressReports (calls (resetForCapture s))"
        using recording_effect[of settings ms s] by (simp add: progressReports_append)
    qed
  next
    fix ms s1 x
    assume "captureStream env = Some ms" "newMediaRecorder env = None" "recorderStart env = None"
       and a: "awaitRecording settings env (recording settings ms s) = (s1, x)"
       and r: "handleGenerateRun settings env s
                = (case x of
                     Completes \<Rightarrow> Returned (finallyBlock s1)
                   | Throws e \<Rightarrow> Returned (finallyBlock (catchBlock e s1))
                   | NeverResumes \<Rightarrow> Suspended s1)"
    then have st: "recorderStarts env" by (simp add: recorderStarts_def)
    define s' where "s' = stateOf (handleGenerateRun settings env s)"
    note ex = awaitRecording_exit[of settings env "recording settings ms s", unfolded a, simplified]
    have xc: "(x = Completes) = (recorderStarts env \<and> settlement env = Some Stop)"
      using ex st by simp
    obtain pre where pre: "calls (resetForCapture s) = calls s @ pre" "progressReports pre = [0]"
      using reset_reports by blast
    note re = recording_effect[of settings ms s]
    have r0: "progressReports (calls (recording settings ms s)) = progressReports (calls s) @ [0]"
      using re pre by (simp add: progressReports_append)
    have h: "whileRecording env
               @ (if list_ex settles (whileRecording env) then [] else untilSettled (afterDeadline env))
             = handledEvents env"
      using st by (simp add: handledEvents_def)
    have r1: "progressReports (calls s1) = progressReports (calls s)
           @ (0 # map ?p (ticksOf (handledEvents env)) @ (if x = Completes then [100] else []))"
      using awaitRecording_reports[OF a] unfolding h r0 by simp
    have rs1: "progressReports (calls s') = progressReports (calls s1)"
      unfolding s'_def r by (cases x) simp_all
    obtain fin where fin: "calls s' = calls s1 @ fin"
    proof (cases x)
      case Completes
      then show ?thesis
        using finallyBlock_calls[of s1] that unfolding s'_def r by (auto simp: prefix_def)
    next
      case (Throws e)
      then show ?thesis
        using finallyBlock_calls[of "catchBlock e s1"] that unfolding s'_def r
        by (auto simp: prefix_def)
    next
      case NeverResumes
      then show ?thesis using that[of "[]"] unfolding s'_def r by simp
    qed
    obtain mid where mid: "calls s1 = (calls (recording settings ms s) @ [SetInterval 120 (interval env)]) @ mid"
      using awaitRecording_calls[OF a] unfolding prefix_def by blast
    have rc: "calls (recording settings ms s)
                = calls s @ pre @ [CaptureStream (frameRate settings), NewMediaRecorder, RecorderStart]"
      using re pre by simp
    define cs where "cs = pre @ [CaptureStream (frameRate settings), NewMediaRecorder, RecorderStart]
                            @ [SetInterval 120 (interval env)] @ mid @ fin"
    have cs: "calls s' = calls s @ cs"
      unfolding fin mid rc cs_def by simp
    have iv: "recorderStarts env \<longrightarrow> SetInterval 120 (interval env) \<in> set cs"
      unfolding cs_def by simp
    have "progressReports (calls s') = progressReports (calls s)
           @ (0 # map ?p (ticksOf (handledEvents env))
                @ (if recorderStarts env \<and> settlement env = Some Stop then [100] else []))"
      unfolding rs1 r1 xc by (rule refl)
    then have pcs: "progressReports cs = 0 # map ?p (ticksOf (handledEvents env))
                @ (if recorderStarts env \<and> settlement env = Some Stop then [100] else [])"
      unfolding cs by (simp add: progressReports_append)
    show ?thesis
      using cs pcs iv unfolding s'_def by (intro exI[of _ cs] conjI)
  qed
qed

text \<open>
  The sampler's readings over a clock that does not run backwards, after the 0 set at the
  start and with or without the 100 set at the end, are sorted and lie between 0 and 100.
\<close>

lemma sampler_sorted:
  fixes start tot :: real
  assumes "0 < tot" "sorted (start # ts)" "fin = [] \<or> fin = [100]"
  shows "sorted (0 # map (\<lambda>t. min 100 ((t - start) / tot * 100)) ts @ fin)
       \<and> (\<forall>p \<in> set (0 # map (\<lambda>t. min 100 ((t - start) / tot * 100)) ts @ fin). 0 \<le> p \<and> p \<le> 100)"
proof -
  let ?p = "\<lambda>t. min 100 ((t - start) / tot * 100)"
  have ge: "\<forall>t \<in> set ts. start \<le> t" using assms(2) by simp
  have mono: "?p a \<le> ?p b" if "a \<le> b" for a b
  proof -
    have "(a - start) / tot * 100 \<le> (b - start) / tot * 100"
      using that assms(1) by (intro mult_right_mono divide_right_mono) simp_all
    then show ?thesis by (rule min.mono[OF order_refl])
  qed
  have "sorted_wrt (\<lambda>a b. ?p a \<le> ?p b) ts"
    using assms(2) mono by (auto intro: sorted_wrt_mono_rel[where P = "(\<le>)"])
  then have s1: "sorted (map ?p ts)" by (simp add: sorted_map)
  have rng: "\<forall>t \<in> set ts. 0 \<le> ?p t \<and> ?p t \<le> 100"
  proof
    fix t assume "t \<in> set ts"
    then have "0 \<le> (t - start) / tot * 100" using ge assms(1) by simp
    then show "0 \<le> ?p t \<and> ?p t \<le> 100" by simp
  qed
  show ?thesis using s1 rng assms(3) by (auto simp: sorted_append)
qed

lemma handledEvents_ticks:
  "\<exists>rest. ticksOf (whileRecording env @ afterDeadline env) = ticksOf (handledEvents env) @ rest"
proof (cases "recorderStarts env")
  case False
  then have "ticksOf (whileRecording env @ afterDeadline env)
               = ticksOf (handledEvents env) @ ticksOf (whileRecording env @ afterDeadline env)"
    by (simp add: handledEvents_def)
  then show ?thesis by (rule exI)
next
  case True
  obtain rest where rest: "afterDeadline env = untilSettled (afterDeadline env) @ rest"
    using untilSettled_prefix[of "afterDeadline env"] by (auto simp: prefix_def)
  show ?thesis
  proof (cases "list_ex settles (whileRecording env)")
    case True
    then have "ticksOf (whileRecording env @ afterDeadline env)
               = ticksOf (handledEvents env) @ ticksOf (afterDeadline env)"
      using \<open>recorderStarts env\<close> by (simp add: handledEvents_def ticksOf_append)
    then show ?thesis by (rule exI)
  next
    case False
    then have h: "handledEvents env = whileRecording env @ untilSettled (afterDeadline env)"
      using True by (simp add: handledEvents_def)
    have "whileRecording env @ afterDeadline env = handledEvents env @ rest"
      unfolding h using rest by simp
    then have "ticksOf (whileRecording env @ afterDeadline env) = ticksOf (handledEvents env @ rest)"
      by (rule arg_cong)
    then have "ticksOf (whileRecording env @ afterDeadline env)
                 = ticksOf (handledEvents env) @ ticksOf rest"
      by (simp only: ticksOf_append)
    then show ?thesis by (rule exI)
  qed
qed

text \<open>
  C1, as the code has it. The progress is a percentage. In a capture that starts, with a
  positive duration and a clock that does not run backwards, the calls of the session set
  the progress to 0, then at each tick whose handler runs before the routine resumes to
  \<open>min 100 (elapsed / totalDuration * 100)\<close>, and, when the capture completes, last to
  100; the ticks handled are those of \<open>handledEvents\<close>, no fewer and no more. These values
  are sorted and lie in [0, 100], and a reading taken at or after the deadline gives 100.
  When the recorder starts, the interval is set with a delay of 120 ms. The routine
  returns unless the recorder starts and neither \<open>stop\<close> nor \<open>error\<close> ever comes; the capture
  completes, which is to return with no error message, exactly when the recorder starts
  and the first of \<open>stop\<close> and \<open>error\<close> to come is \<open>stop\<close>, and the progress is 100 then.
\<close>

theorem progress_reports_percent:
  assumes cv: "canvasCurrent env" "hasMediaRecorder env"
      and dur: "0 < CinematicSettings.duration settings"
      and clock: "sorted (performanceNow env # ticksOf (whileRecording env @ afterDeadline env))"
  shows "\<exists>cs.
           calls (stateOf (handleGenerateRun settings env s)) = calls s @ cs
         \<and> progressReports cs =
             0 # map (\<lambda>t. min 100 ((t - performanceNow env)
                                     / (CinematicSettings.duration settings * 1000) * 100))
                     (ticksOf (handledEvents env))
             @ (if recorderStarts env \<and> settlement env = Some Stop then [100] else [])
         \<and> sorted (progressReports cs)
         \<and> (\<forall>p \<in> set (progressReports cs). 0 \<le> p \<and> p \<le> 100)
         \<and> (\<forall>t. performanceNow env + CinematicSettings.duration settings * 1000 \<le> t \<longrightarrow>
                min 100 ((t - performanceNow env)
                           / (CinematicSettings.duration settings * 1000) * 100) = 100)
         \<and> (recorderStarts env \<longrightarrow> SetInterval 120 (interval env) \<in> set cs)
         \<and> returned (handleGenerateRun settings env s)
             = (recorderStarts env \<longrightarrow> settlement env \<noteq> None)
         \<and> handleGenerate settings env s
             = (if returned (handleGenerateRun settings env s)
                then Some (stateOf (handleGenerateRun settings env s)) else None)
         \<and> (recorderStarts env \<and> settlement env = Some Stop \<longrightarrow>
                returned (handleGenerateRun settings env s)
              \<and> error (stateOf (handleGenerateRun settings env s)) = None
              \<and> progress (stateOf (handleGenerateRun settings env s)) = 100
              \<and> last (progressReports cs) = 100)
         \<and> (returned (handleGenerateRun settings env s)
              \<and> error (stateOf (handleGenerateRun settings env s)) = None \<longrightarrow>
                recorderStarts env \<and> settlement env = Some Stop)"
proof -
  let ?p = "\<lambda>t. min 100 ((t - performanceNow env) / (CinematicSettings.duration settings * 1000) * 100)"
  let ?r = "handleGenerateRun settings env s"
  let ?c = "recorderStarts env \<and> settlement env = Some Stop"
  from handleGenerateRun_reports[OF cv, of settings s] obtain cs where all:
          "calls (stateOf ?r) = calls s @ cs
         \<and> progressReports cs = 0 # map ?p (ticksOf (handledEvents env)) @ (if ?c then [100] else [])
         \<and> (recorderStarts env \<longrightarrow> SetInterval 120 (interval env) \<in> set cs)" ..
  have cs: "calls (stateOf ?r) = calls s @ cs" using all by (elim conjE)
  have pcs: "progressReports cs = 0 # map ?p (ticksOf (handledEvents env)) @ (if ?c then [100] else [])"
    using all by (elim conjE)
  have iv: "recorderStarts env \<longrightarrow> SetInterval 120 (interval env) \<in> set cs"
    using all by (elim conjE)
  note oc = handleGenerateRun_outcome[OF cv, of settings s]
  have ret: "returned ?r = (recorderStarts env \<longrightarrow> settlement env \<noteq> None)"
    using oc by (elim conjE)
  have ok: "?c \<longrightarrow> error (stateOf ?r) = None \<and> progress (stateOf ?r) = 100"
    using oc by (elim conjE)
  have only: "returned ?r \<and> error (stateOf ?r) = None \<longrightarrow> ?c"
    using oc by (elim conjE)
  have hg: "handleGenerate settings env s = (if returned ?r then Some (stateOf ?r) else None)"
    by (cases ?r) (simp_all add: handleGenerate_def)
  obtain rest where split:
    "ticksOf (whileRecording env @ afterDeadline env) = ticksOf (handledEvents env) @ rest"
    using handledEvents_ticks by blast
  have st: "sorted (performanceNow env # ticksOf (handledEvents env))"
    using clock unfolding split by (simp add: sorted_append)
  have tot: "0 < CinematicSettings.duration settings * 1000" using dur by simp
  have fin: "(if ?c then [100] else []) = [] \<or> (if ?c then [100] else []) = [100 :: real]"
    by simp
  note so = sampler_sorted[OF tot st fin]
  have s1: "sorted (progressReports cs)" unfolding pcs using so by (rule conjunct1)
  have s2: "\<forall>p \<in> set (progressReports cs). 0 \<le> p \<and> p \<le> 100"
    unfolding pcs using so by (rule conjunct2)
  have pin: "\<forall>t. performanceNow env + CinematicSettings.duration settings * 1000 \<le> t \<longrightarrow>
                min 100 ((t - performanceNow env)
                           / (CinematicSettings.duration settings * 1000) * 100) = 100"
  proof (intro allI impI)
    fix t assume "performanceNow env + CinematicSettings.duration settings * 1000 \<le> t"
    then have "CinematicSettings.duration settings * 1000 \<le> t - performanceNow env" by simp
    then have "1 \<le> (t - performanceNow env) / (CinematicSettings.duration settings * 1000)"
      using tot by (simp add: pos_le_divide_eq)
    then have "100 \<le> (t - performanceNow env) / (CinematicSettings.duration settings * 1000) * 100"
      by linarith
    then show "min 100 ((t - performanceNow env)
                           / (CinematicSettings.duration settings * 1000) * 100) = 100"
      by (rule min_absorb1)
  qed
  have completed: "?c \<longrightarrow>
                returned ?r \<and> error (stateOf ?r) = None \<and> progress (stateOf ?r) = 100
              \<and> last (progressReports cs) = 100"
  proof
    assume c: ?c
    have "last (progressReports cs) = 100" unfolding pcs using c by simp
    moreover have "returned ?r" using ret c by simp
    ultimately show "returned ?r \<and> error (stateOf ?r) = None \<and> progress (stateOf ?r) = 100
              \<and> last (progressReports cs) = 100"
      using ok c by simp
  qed
  show ?thesis
    using cs pcs s1 s2 pin iv ret hg completed only
    by (intro exI[of _ cs] conjI)
qed

theorem progress_reports_percent_witness:
  "canvasCurrent captureOk \<and> hasMediaRecorder captureOk
 \<and> 0 < CinematicSettings.duration scenarioSettings
 \<and> sorted (performanceNow captureOk # ticksOf (whileRecording captureOk @ afterDeadline captureOk))
 \<and> recorderStarts captureOk \<and> settlement captureOk = Some Stop
 \<and> ticksOf (handledEvents captureOk) = [1120, 4000, 7000]
 \<and> handleGenerate scenarioSettings captureOk studio0 \<noteq> None
 \<and> map_option error (handleGenerate scenarioSettings captureOk studio0) = Some None
 \<and> map_option (progressReports \<circ> calls) (handleGenerate scenarioSettings captureOk studio0)
     = Some [0, 2, 50, 100, 100]
 \<and> map_option (sorted \<circ> progressReports \<circ> calls) (handleGenerate scenarioSettings captureOk studio0)
     = Some True
 \<and> map_option progress (handleGenerate scenarioSettings captureOk studio0) = Some 100"
proof -
  have cv: "canvasCurrent captureOk" "hasMediaRecorder captureOk"
    by (simp_all add: captureOk_def)
  have d: "0 < CinematicSettings.duration scenarioSettings" by (simp add: scenarioSettings_def)
  have c: "sorted (performanceNow captureOk # ticksOf (whileRecording captureOk @ afterDeadline captureOk))"
    by (simp add: captureOk_def)
  have rs: "recorderStarts captureOk" by (simp add: recorderStarts_def captureOk_def)
  have se: "settlement captureOk = Some Stop" by (simp add: settlement_def captureOk_def)
  have he: "ticksOf (handledEvents captureOk) = [1120, 4000, 7000]"
    by (simp add: handledEvents_def recorderStarts_def captureOk_def)
  have z: "calls studio0 = []" by (simp add: studio0_def)
  have n: "performanceNow captureOk = 1000" "CinematicSettings.duration scenarioSettings = 6"
    by (simp_all add: captureOk_def scenarioSettings_def)
  define s' where "s' = stateOf (handleGenerateRun scenarioSettings captureOk studio0)"
  have "handleGenerate scenarioSettings captureOk studio0 = Some s'
        \<and> progressReports (calls s') = [0, 2, 50, 100, 100]
        \<and> sorted (progressReports (calls s')) \<and> error s' = None \<and> progress s' = 100"
    using progress_reports_percent [OF cv d c, of studio0]
  proof (elim exE conjE)
    fix cs
    assume 1: "calls (stateOf (handleGenerateRun scenarioSettings captureOk studio0)) = calls studio0 @ cs"
       and 2: "progressReports cs =
             0 # map (\<lambda>t. min 100 ((t - performanceNow captureOk)
                                     / (CinematicSettings.duration scenarioSettings * 1000) * 100))
                     (ticksOf (handledEvents captureOk))
             @ (if recorderStarts captureOk \<and> settlement captureOk = Some Stop then [100] else [])"
       and 3: "sorted (progressReports cs)"
       and 4: "handleGenerate scenarioSettings captureOk studio0
             = (if returned (handleGenerateRun scenarioSettings captureOk studio0)
                then Some (stateOf (handleGenerateRun scenarioSettings captureOk studio0)) else None)"
       and 5: "recorderStarts captureOk \<and> settlement captureOk = Some Stop \<longrightarrow>
                returned (handleGenerateRun scenarioSettings captureOk studio0)
              \<and> error (stateOf (handleGenerateRun scenarioSettings captureOk studio0)) = None
              \<and> progress (stateOf (handleGenerateRun scenarioSettings captureOk studio0)) = 100
              \<and> last (progressReports cs) = 100"
    have cs: "calls s' = cs" using 1 z by (simp add: s'_def)
    have "progressReports cs = [0, 2, 50, 100, 100]"
      unfolding 2 he n using rs se by simp
    then show ?thesis using 3 4 5 rs se cs by (simp add: s'_def)
  qed
  then show ?thesis using cv d c rs se he by simp
qed

text \<open>
  C1, as the claim states it, fails: in the capture of the concrete inputs, which
  completes, the progress reported at 3 seconds of 6 is 50 and the final progress is 100,
  not a fraction in [0, 1] and not 1.
\<close>

theorem progress_scale_counterexample:
  "map_option progress (handleGenerate scenarioSettings captureOk studio0) = Some 100
 \<and> map_option (progressReports \<circ> calls) (handleGenerate scenarioSettings captureOk studio0)
     = Some [0, 2, 50, 100, 100]
 \<and> map_option progress (handleGenerate scenarioSettings captureOk studio0) \<noteq> Some 1
 \<and> \<not> (50 :: real) \<le> 1"
  by (simp add: handleGenerate_captureOk)

end
